theory Spec2Isabelle
  imports Main "HOL-Library.Word" "HOL-Library.Sublist"
begin

unbundle bit_operations_syntax

section \<open>Python values used by sabnzbd.utils.ssdp\<close>

text \<open>
  A Python \<open>str\<close> is a sequence of Unicode code points, a \<open>bytes\<close> object a sequence
  of octets. String literals of the source are written with \<open>lit\<close>, which maps each ASCII
  character to its code point.
\<close>

type_synonym pystr = "nat list"
type_synonym byte = "8 word"
type_synonym u32 = "32 word"
type_synonym UUID = "128 word"

datatype error = OSError | UnicodeEncodeError | RuntimeError

datatype pyval = PyNone | PyStr pystr

definition lit :: "string \<Rightarrow> pystr" where
  "lit s = map of_char s"

text \<open>
  \<open>bytes(s, "utf-8")\<close>: one to four octets per code point; a surrogate code point
  (\<open>0xD800\<close> to \<open>0xDFFF\<close>) raises \<open>UnicodeEncodeError\<close>. Values from \<open>0x110000\<close> on are
  not code points; the model rejects them as well.
\<close>

definition utf8_char :: "nat \<Rightarrow> error + byte list" where
  "utf8_char c =
     (if c < 0x80 then Inr [of_nat c]
      else if c < 0x800 then Inr [of_nat (0xC0 + c div 0x40), of_nat (0x80 + c mod 0x40)]
      else if 0xD800 \<le> c \<and> c < 0xE000 then Inl UnicodeEncodeError
      else if c < 0x10000 then
        Inr [of_nat (0xE0 + c div 0x1000), of_nat (0x80 + c div 0x40 mod 0x40),
             of_nat (0x80 + c mod 0x40)]
      else if c < 0x110000 then
        Inr [of_nat (0xF0 + c div 0x40000), of_nat (0x80 + c div 0x1000 mod 0x40),
             of_nat (0x80 + c div 0x40 mod 0x40), of_nat (0x80 + c mod 0x40)]
      else Inl UnicodeEncodeError)"

fun bytes_utf8 :: "pystr \<Rightarrow> error + byte list" where
  "bytes_utf8 [] = Inr []"
| "bytes_utf8 (c # cs) =
     (case utf8_char c of
        Inl e \<Rightarrow> Inl e
      | Inr bs \<Rightarrow> (case bytes_utf8 cs of Inl e \<Rightarrow> Inl e | Inr rest \<Rightarrow> Inr (bs @ rest)))"

text \<open>
  \<open>s.replace(old, new)\<close>: every non-overlapping occurrence of \<open>old\<close>, scanning from the
  left, is replaced by \<open>new\<close>; an empty \<open>old\<close> matches before every character and at
  the end.
\<close>

function replace :: "pystr \<Rightarrow> pystr \<Rightarrow> pystr \<Rightarrow> pystr" where
  "replace old new s =
     (if old = [] then new @ concat (map (\<lambda>c. c # new) s)
      else if s = [] then []
      else if take (length old) s = old then new @ replace old new (drop (length old) s)
      else hd s # replace old new (tl s))"
  by pat_completeness auto
termination
  by (relation "measure (\<lambda>(old, new, s). length s)") auto

declare replace.simps [simp del]

section \<open>uuid.uuid3: MD5 (RFC 1321) and the name-based UUID\<close>

text \<open>
  \<open>uuid.uuid3(namespace, name)\<close> hashes \<open>namespace.bytes + bytes(name, "utf-8")\<close> with
  MD5 and makes a version 3 UUID of the digest. MD5 is that of RFC 1321: the message is
  padded with \<open>0x80\<close>, zero octets and its length in bits (64 bits, little-endian) to
  a multiple of 64 octets; every block, read as sixteen little-endian words, goes through
  64 rounds; the four state words, little-endian, are the digest.
\<close>

definition md5_s :: "nat list" where
  "md5_s = [7, 12, 17, 22, 7, 12, 17, 22, 7, 12, 17, 22, 7, 12, 17, 22,
            5, 9, 14, 20, 5, 9, 14, 20, 5, 9, 14, 20, 5, 9, 14, 20,
            4, 11, 16, 23, 4, 11, 16, 23, 4, 11, 16, 23, 4, 11, 16, 23,
            6, 10, 15, 21, 6, 10, 15, 21, 6, 10, 15, 21, 6, 10, 15, 21]"

definition md5_K :: "u32 list" where
  "md5_K = [0xd76aa478, 0xe8c7b756, 0x242070db, 0xc1bdceee, 0xf57c0faf, 0x4787c62a, 0xa8304613, 0xfd469501,
            0x698098d8, 0x8b44f7af, 0xffff5bb1, 0x895cd7be, 0x6b901122, 0xfd987193, 0xa679438e, 0x49b40821,
            0xf61e2562, 0xc040b340, 0x265e5a51, 0xe9b6c7aa, 0xd62f105d, 0x02441453, 0xd8a1e681, 0xe7d3fbc8,
            0x21e1cde6, 0xc33707d6, 0xf4d50d87, 0x455a14ed, 0xa9e3e905, 0xfcefa3f8, 0x676f02d9, 0x8d2a4c8a,
            0xfffa3942, 0x8771f681, 0x6d9d6122, 0xfde5380c, 0xa4beea44, 0x4bdecfa9, 0xf6bb4b60, 0xbebfbc70,
            0x289b7ec6, 0xeaa127fa, 0xd4ef3085, 0x04881d05, 0xd9d4d039, 0xe6db99e5, 0x1fa27cf8, 0xc4ac5665,
            0xf4292244, 0x432aff97, 0xab9423a7, 0xfc93a039, 0x655b59c3, 0x8f0ccc92, 0xffeff47d, 0x85845dd1,
            0x6fa87e4f, 0xfe2ce6e0, 0xa3014314, 0x4e0811a1, 0xf7537e82, 0xbd3af235, 0x2ad7d2bb, 0xeb86d391]"

definition rotl32 :: "u32 \<Rightarrow> nat \<Rightarrow> u32" where
  "rotl32 x n = push_bit n x OR drop_bit (32 - n) x"

definition md5_pad :: "byte list \<Rightarrow> byte list" where
  "md5_pad msg =
     msg @ [0x80] @ replicate ((119 - length msg mod 64) mod 64) 0
         @ map (\<lambda>i. ucast (drop_bit (8 * i) (of_nat (8 * length msg) :: 64 word))) [0..<8]"

definition le32 :: "byte list \<Rightarrow> u32" where
  "le32 bs = ucast (bs ! 0) OR push_bit 8 (ucast (bs ! 1))
             OR push_bit 16 (ucast (bs ! 2)) OR push_bit 24 (ucast (bs ! 3))"

definition le32_bytes :: "u32 \<Rightarrow> byte list" where
  "le32_bytes w = map (\<lambda>i. ucast (drop_bit (8 * i) w)) [0..<4]"

definition md5_words :: "byte list \<Rightarrow> u32 list" where
  "md5_words block = map (\<lambda>j. le32 (take 4 (drop (4 * j) block))) [0..<16]"

definition md5_round :: "u32 list \<Rightarrow> u32 \<times> u32 \<times> u32 \<times> u32 \<Rightarrow> nat \<Rightarrow> u32 \<times> u32 \<times> u32 \<times> u32" where
  "md5_round M st i =
     (case st of (A, B, C, D) \<Rightarrow>
        let (F, g) =
              (if i < 16 then ((B AND C) OR (NOT B AND D), i)
               else if i < 32 then ((D AND B) OR (NOT D AND C), (5 * i + 1) mod 16)
               else if i < 48 then (B XOR C XOR D, (3 * i + 5) mod 16)
               else (C XOR (B OR NOT D), (7 * i) mod 16));
            F' = F + A + md5_K ! i + M ! g
        in (D, B + rotl32 F' (md5_s ! i), B, C))"

definition md5_block :: "u32 \<times> u32 \<times> u32 \<times> u32 \<Rightarrow> byte list \<Rightarrow> u32 \<times> u32 \<times> u32 \<times> u32" where
  "md5_block st block =
     (case st of (a0, b0, c0, d0) \<Rightarrow>
        case foldl (md5_round (md5_words block)) st [0..<64] of
          (A, B, C, D) \<Rightarrow> (a0 + A, b0 + B, c0 + C, d0 + D))"

fun md5_blocks :: "nat \<Rightarrow> u32 \<times> u32 \<times> u32 \<times> u32 \<Rightarrow> byte list \<Rightarrow> u32 \<times> u32 \<times> u32 \<times> u32" where
  "md5_blocks 0 st bs = st"
| "md5_blocks (Suc n) st bs = md5_blocks n (md5_block st (take 64 bs)) (drop 64 bs)"

definition md5 :: "byte list \<Rightarrow> byte list" where
  "md5 msg =
     (let p = md5_pad msg in
      case md5_blocks (length p div 64) (0x67452301, 0xefcdab89, 0x98badcfe, 0x10325476) p of
        (a, b, c, d) \<Rightarrow> le32_bytes a @ le32_bytes b @ le32_bytes c @ le32_bytes d)"

text \<open>
  \<open>UUID(bytes=digest[:16], version=3)\<close>: the octets are read big-endian, the variant
  bits are set to RFC 4122 and the version number is put in. \<open>str\<close> of a UUID is its 32
  hexadecimal digits in groups of 8, 4, 4, 4 and 12.
\<close>

definition UUID_bytes :: "byte list \<Rightarrow> nat \<Rightarrow> UUID" where
  "UUID_bytes bs version =
     (let i0 = foldl (\<lambda>acc b. push_bit 8 acc OR ucast b) 0 bs;
          i1 = i0 AND NOT (push_bit 48 0xc000);
          i2 = i1 OR push_bit 48 0x8000;
          i3 = i2 AND NOT (push_bit 64 0xf000)
      in i3 OR push_bit 76 (of_nat version))"

definition UUID_to_bytes :: "UUID \<Rightarrow> byte list" where
  "UUID_to_bytes u = map (\<lambda>i. ucast (drop_bit (8 * (15 - i)) u)) [0..<16]"

definition hex_digit :: "nat \<Rightarrow> nat" where
  "hex_digit d = lit ''0123456789abcdef'' ! d"

definition UUID_hex :: "UUID \<Rightarrow> pystr" where
  "UUID_hex u = map (\<lambda>i. hex_digit (unat (drop_bit (4 * (31 - i)) u AND 0xf))) [0..<32]"

definition UUID_str :: "UUID \<Rightarrow> pystr" where
  "UUID_str u =
     (let hex = UUID_hex u in
      take 8 hex @ lit ''-'' @ take 4 (drop 8 hex) @ lit ''-'' @ take 4 (drop 12 hex)
        @ lit ''-'' @ take 4 (drop 16 hex) @ lit ''-'' @ drop 20 hex)"

definition NAMESPACE_DNS :: UUID where
  "NAMESPACE_DNS = 0x6ba7b8109dad11d180b400c04fd430c8"

definition uuid3 :: "UUID \<Rightarrow> pystr \<Rightarrow> error + UUID" where
  "uuid3 namespace name =
     (case bytes_utf8 name of
        Inl e \<Rightarrow> Inl e
      | Inr bs \<Rightarrow> Inr (UUID_bytes (take 16 (md5 (UUID_to_bytes namespace @ bs))) 3))"

section \<open>The class SSDP\<close>

text \<open>
  \<open>class SSDP(Thread)\<close>: the record extends the part of \<open>threading.Thread\<close> that
  \<open>is_alive\<close>, \<open>start\<close> and \<open>join\<close> read: \<open>_started\<close> is set by \<open>start()\<close>,
  \<open>_is_stopped\<close> once \<open>run()\<close> has returned.
\<close>

record Thread =
  Thread_started :: bool
  Thread_is_stopped :: bool

record SSDP = Thread +
  SSDP__host :: pystr
  SSDP__server_name :: pystr
  SSDP__url :: pystr
  SSDP__description :: pystr
  SSDP__myhostname :: pystr
  SSDP__uuid :: UUID
  SSDP__mySSDPbroadcast :: "byte list"
  SSDP__myxml :: pystr
  SSDP__stop :: bool

text \<open>The two f-strings of \<open>__init__\<close>, with the interpolated values as arguments.\<close>

definition mySSDPbroadcast_fstring :: "pystr \<Rightarrow> UUID \<Rightarrow> pystr" where
  \<open>mySSDPbroadcast_fstring url u =
     lit ''NOTIFY * HTTP/1.1\<newline>'' @
     lit ''HOST: 239.255.255.250:1900\<newline>'' @
     lit ''CACHE-CONTROL: max-age=60\<newline>'' @
     lit ''LOCATION: '' @ url @ lit ''/description.xml\<newline>'' @
     lit ''SERVER: SABnzbd\<newline>'' @
     lit ''NT: upnp:rootdevice\<newline>'' @
     lit ''USN: uuid:'' @ UUID_str u @ lit ''::upnp:rootdevice\<newline>'' @
     lit ''NTS: ssdp:alive\<newline>'' @
     lit ''OPT: "http://schemas.upnp.org/upnp/1/0/"; ns=01\<newline>'' @
     lit ''\<newline>''\<close>

definition myxml_fstring :: "pystr \<Rightarrow> pystr \<Rightarrow> UUID \<Rightarrow> pystr" where
  \<open>myxml_fstring url myhostname u =
     lit ''<?xml version="1.0" encoding="UTF-8" ?>\<newline>'' @
     lit ''<root xmlns="urn:schemas-upnp-org:device-1-0">\<newline>'' @
     lit ''<specVersion>\<newline>'' @
     lit ''<major>1</major>\<newline>'' @
     lit ''<minor>0</minor>\<newline>'' @
     lit ''</specVersion>\<newline>'' @
     lit ''<URLBase>'' @ url @ lit ''</URLBase>\<newline>'' @
     lit ''<device>\<newline>'' @
     lit ''<deviceType>urn:schemas-upnp-org:device:Basic:1</deviceType>\<newline>'' @
     lit ''<friendlyName>SABnzbd ('' @ myhostname @ lit '')</friendlyName>\<newline>'' @
     lit ''<manufacturer>SABnzbd Team</manufacturer>\<newline>'' @
     lit ''<manufacturerURL>http://www.sabnzbd.org</manufacturerURL>\<newline>'' @
     lit ''<modelDescription>SABnzbd downloader</modelDescription>\<newline>'' @
     lit ''<modelURL>http://www.sabnzbd.org</modelURL>\<newline>'' @
     lit ''<UDN>uuid:'' @ UUID_str u @ lit ''</UDN>\<newline>'' @
     lit ''<presentationURL>sabnzbd</presentationURL>\<newline>'' @
     lit ''</device>\<newline>'' @
     lit ''</root>''\<close>

text \<open>
  \<open>SSDP.__init__\<close>. The first argument is the outcome of \<open>socket.gethostname()\<close>: the
  resolved name, or the error it raised. Every later raise of the constructor is a
  \<open>UnicodeEncodeError\<close>, from \<open>uuid3\<close> or from \<open>bytes(..., "utf-8")\<close>.
  \<open>super().__init__()\<close> leaves the thread neither started nor stopped.
\<close>

definition SSDP_init ::
    "error + pystr \<Rightarrow> pystr \<Rightarrow> pystr \<Rightarrow> pystr \<Rightarrow> pystr \<Rightarrow> error + SSDP" where
  "SSDP_init gethostname host server_name url description =
     (case gethostname of
        Inl e \<Rightarrow> Inl e
      | Inr myhostname \<Rightarrow>
     (case uuid3 NAMESPACE_DNS (myhostname @ host) of
        Inl e \<Rightarrow> Inl e
      | Inr u \<Rightarrow>
     (case bytes_utf8 (replace [0x0A] [0x0D, 0x0A] (mySSDPbroadcast_fstring url u)) of
        Inl e \<Rightarrow> Inl e
      | Inr broadcast \<Rightarrow>
          Inr \<lparr> Thread_started = False, Thread_is_stopped = False,
                SSDP__host = host, SSDP__server_name = server_name, SSDP__url = url,
                SSDP__description = description, SSDP__myhostname = myhostname,
                SSDP__uuid = u, SSDP__mySSDPbroadcast = broadcast,
                SSDP__myxml = myxml_fstring url myhostname u, SSDP__stop = False \<rparr>)))"

text \<open>\<open>SSDP.stop\<close>: the log line apart, one assignment.\<close>

definition stop :: "SSDP \<Rightarrow> SSDP" where
  "stop self = self\<lparr>SSDP__stop := True\<rparr>"

text \<open>\<open>SSDP.serve_xml\<close>: a bare \<open>return\<close> gives \<open>None\<close>.\<close>

definition serve_xml :: "SSDP \<Rightarrow> pyval" where
  "serve_xml self = (if SSDP__stop self then PyNone else PyStr (SSDP__myxml self))"

text \<open>
  \<open>Thread.is_alive\<close>, \<open>Thread.start\<close>: a thread is alive from \<open>start()\<close> until its
  \<open>run()\<close> has returned; a second \<open>start()\<close> raises \<open>RuntimeError\<close>.
\<close>

definition is_alive :: "SSDP \<Rightarrow> bool" where
  "is_alive self = (Thread_started self \<and> \<not> Thread_is_stopped self)"

definition start :: "SSDP \<Rightarrow> error + SSDP" where
  "start self =
     (if Thread_started self then Inl RuntimeError else Inr (self\<lparr>Thread_started := True\<rparr>))"

text \<open>
  \<open>SSDP.run\<close>. A datagram is recorded with its payload, destination and TTL. The
  thread stands either at the test of \<open>while 1 and not self.__stop\<close> or inside the
  body, past the test. A step at the test enters the body when the flag is clear and
  leaves the loop, so that \<open>run\<close> returns, when it is set. A step in the body opens the
  socket, sends the broadcast, closes the socket and sleeps, and is back at the test;
  \<open>sent\<close> tells whether the socket calls went through (an \<open>OSError\<close> there ends \<open>run\<close>).
  The flag is read at the test only: a thread that is in the body when the flag gets set
  still sends.
\<close>

type_synonym datagram = "byte list \<times> string \<times> nat \<times> nat"

definition MCAST_GRP :: string where
  "MCAST_GRP = ''239.255.255.250''"

definition MCAST_PORT :: nat where
  "MCAST_PORT = 1900"

definition MULTICAST_TTL :: nat where
  "MULTICAST_TTL = 2"

datatype run_pc = At_test | In_body

definition run_step ::
    "bool \<Rightarrow> run_pc \<Rightarrow> SSDP \<Rightarrow> datagram list \<Rightarrow> run_pc \<times> SSDP \<times> datagram list" where
  "run_step sent pc self net =
     (case pc of
        At_test \<Rightarrow>
          if \<not> SSDP__stop self then (In_body, self, net)
          else (At_test, self\<lparr>Thread_is_stopped := True\<rparr>, net)
      | In_body \<Rightarrow>
          if sent then
            (At_test, self,
             net @ [(SSDP__mySSDPbroadcast self, MCAST_GRP, MCAST_PORT, MULTICAST_TTL)])
          else (In_body, self\<lparr>Thread_is_stopped := True\<rparr>, net))"

text \<open>
  \<open>Thread.join\<close>: \<open>RuntimeError\<close> on a thread never started; otherwise the caller waits
  while the thread goes on from where it stands, and returns once \<open>run\<close> has returned.
  A wait that never ends is \<open>None\<close>. The socket calls made during the wait are taken to
  go through; one that fails ends \<open>run\<close> as well, without the datagram.
\<close>

partial_function (option) join_wait ::
    "run_pc \<Rightarrow> SSDP \<Rightarrow> datagram list \<Rightarrow> (run_pc \<times> SSDP \<times> datagram list) option" where
  "join_wait pc self net =
     (if Thread_is_stopped self then Some (pc, self, net)
      else join_wait (fst (run_step True pc self net))
             (fst (snd (run_step True pc self net)))
             (snd (snd (run_step True pc self net))))"

definition join ::
    "run_pc \<Rightarrow> SSDP \<Rightarrow> datagram list \<Rightarrow> (error + run_pc \<times> SSDP \<times> datagram list) option" where
  "join pc self net =
     (if \<not> Thread_started self then Some (Inl RuntimeError)
      else map_option Inr (join_wait pc self net))"

section \<open>The module: the variable \<open>__SSDP\<close> and the wrapper functions\<close>

text \<open>
  Objects live in a store; a reference is an index into it. The module variable
  \<open>__SSDP\<close> holds \<open>None\<close> or a reference. \<open>run_at\<close> tells where in \<open>run\<close> the thread of
  each object stands; \<open>start()\<close> puts it at the test. A call returns a value or raises,
  and leaves the state it reached.
\<close>

record world =
  heap :: "SSDP list"
  module__SSDP :: "nat option"
  network :: "datagram list"
  run_at :: "nat \<Rightarrow> run_pc"

datatype 'a result = Return 'a | Raise error

definition init_world :: world where
  "init_world = \<lparr> heap = [], module__SSDP = None, network = [], run_at = (\<lambda>r. At_test) \<rparr>"

definition start_ssdp ::
    "error + pystr \<Rightarrow> pystr \<Rightarrow> pystr \<Rightarrow> pystr \<Rightarrow> pystr \<Rightarrow> world \<Rightarrow> unit result \<times> world" where
  "start_ssdp gethostname host server_name url description w =
     (case SSDP_init gethostname host server_name url description of
        Inl e \<Rightarrow> (Raise e, w)
      | Inr obj \<Rightarrow>
          (let r = length (heap w);
               w1 = w\<lparr>heap := heap w @ [obj], module__SSDP := Some r\<rparr>
           in case start (heap w1 ! r) of
                Inl e \<Rightarrow> (Raise e, w1)
              | Inr obj' \<Rightarrow>
                  (Return (), w1\<lparr>heap := (heap w1)[r := obj'],
                                 run_at := (run_at w1)(r := At_test)\<rparr>)))"

definition stop_ssdp :: "world \<Rightarrow> (unit result \<times> world) option" where
  "stop_ssdp w =
     (case module__SSDP w of
        None \<Rightarrow> Some (Return (), w)
      | Some r \<Rightarrow>
          if is_alive (heap w ! r) then
            (let w1 = w\<lparr>heap := (heap w)[r := stop (heap w ! r)]\<rparr>
             in case join (run_at w1 r) (heap w1 ! r) (network w1) of
                  None \<Rightarrow> None
                | Some (Inl e) \<Rightarrow> Some (Raise e, w1)
                | Some (Inr (pc, obj, net)) \<Rightarrow>
                    Some (Return (), w1\<lparr>heap := (heap w1)[r := obj], network := net,
                                         run_at := (run_at w1)(r := pc)\<rparr>))
          else Some (Return (), w))"

definition server_ssdp_xml :: "world \<Rightarrow> pyval" where
  "server_ssdp_xml w =
     (case module__SSDP w of
        None \<Rightarrow> PyStr []
      | Some r \<Rightarrow> if is_alive (heap w ! r) then serve_xml (heap w ! r) else PyStr [])"

text \<open>
  What a program can do with the module, one step at a time: call a wrapper, construct
  an object, call a method of an object it holds, or let the thread of an object make
  one step of \<open>run\<close>. A method call names an existing object. \<open>exec\<close> gives the state
  after the step, \<open>None\<close> when the step never returns.
\<close>

datatype event =
    Start_ssdp "error + pystr" pystr pystr pystr pystr
  | Stop_ssdp
  | Server_ssdp_xml
  | Construct "error + pystr" pystr pystr pystr pystr
  | Call_start nat
  | Call_stop nat
  | Call_join nat
  | Call_serve_xml nat
  | Call_is_alive nat
  | Thread_step nat bool

fun exec :: "event \<Rightarrow> world \<Rightarrow> world option" where
  "exec (Start_ssdp g host server_name url description) w =
     Some (snd (start_ssdp g host server_name url description w))"
| "exec Stop_ssdp w = map_option snd (stop_ssdp w)"
| "exec Server_ssdp_xml w = Some w"
| "exec (Construct g host server_name url description) w =
     (case SSDP_init g host server_name url description of
        Inl e \<Rightarrow> Some w
      | Inr obj \<Rightarrow> Some (w\<lparr>heap := heap w @ [obj]\<rparr>))"
| "exec (Call_start r) w =
     (if r < length (heap w) then
        (case start (heap w ! r) of
           Inl e \<Rightarrow> Some w
         | Inr obj \<Rightarrow>
             Some (w\<lparr>heap := (heap w)[r := obj], run_at := (run_at w)(r := At_test)\<rparr>))
      else Some w)"
| "exec (Call_stop r) w =
     (if r < length (heap w) then Some (w\<lparr>heap := (heap w)[r := stop (heap w ! r)]\<rparr>)
      else Some w)"
| "exec (Call_join r) w =
     (if r < length (heap w) then
        (case join (run_at w r) (heap w ! r) (network w) of
           None \<Rightarrow> None
         | Some (Inl e) \<Rightarrow> Some w
         | Some (Inr (pc, obj, net)) \<Rightarrow>
             Some (w\<lparr>heap := (heap w)[r := obj], network := net,
                     run_at := (run_at w)(r := pc)\<rparr>))
      else Some w)"
| "exec (Call_serve_xml r) w = Some w"
| "exec (Call_is_alive r) w = Some w"
| "exec (Thread_step r sent) w =
     (if r < length (heap w) \<and> is_alive (heap w ! r) then
        (case run_step sent (run_at w r) (heap w ! r) (network w) of
           (pc, obj, net) \<Rightarrow>
             Some (w\<lparr>heap := (heap w)[r := obj], network := net,
                     run_at := (run_at w)(r := pc)\<rparr>))
      else Some w)"

fun execs :: "event list \<Rightarrow> world \<Rightarrow> world option" where
  "execs [] w = Some w"
| "execs (e # es) w = (case exec e w of None \<Rightarrow> None | Some w' \<Rightarrow> execs es w')"

text \<open>The module variable, when set, refers to an object of the store.\<close>

definition wf_world :: "world \<Rightarrow> bool" where
  "wf_world w = (case module__SSDP w of None \<Rightarrow> True | Some r \<Rightarrow> r < length (heap w))"

section \<open>Notions used in the properties\<close>

text \<open>
  Two objects that agree in every field but the thread state and the flag \<open>__stop\<close>.
\<close>

definition changed_only_state :: "SSDP \<Rightarrow> SSDP \<Rightarrow> bool" where
  "changed_only_state a b =
     (b = a\<lparr>Thread_started := Thread_started b, Thread_is_stopped := Thread_is_stopped b,
            SSDP__stop := SSDP__stop b\<rparr>)"

text \<open>The steps that call \<open>start_ssdp\<close>.\<close>

fun is_Start_ssdp :: "event \<Rightarrow> bool" where
  "is_Start_ssdp (Start_ssdp g host server_name url description) = True"
| "is_Start_ssdp e = False"

text \<open>
  A bare line feed: an octet \<open>0x0A\<close> not directly after an octet \<open>0x0D\<close>; \<open>prev\<close> is the
  octet before the list (\<open>0\<close> at the start of a message).
\<close>

fun bare_lf :: "byte \<Rightarrow> byte list \<Rightarrow> bool" where
  "bare_lf prev [] = False"
| "bare_lf prev (b # bs) = ((b = 0x0A \<and> prev \<noteq> 0x0D) \<or> bare_lf b bs)"

definition has_bare_lf :: "byte list \<Rightarrow> bool" where
  "has_bare_lf bs = bare_lf 0 bs"

fun bare_lf_str :: "nat \<Rightarrow> pystr \<Rightarrow> bool" where
  "bare_lf_str prev [] = False"
| "bare_lf_str prev (c # cs) = ((c = 0x0A \<and> prev \<noteq> 0x0D) \<or> bare_lf_str c cs)"

text \<open>The strings \<open>bytes(..., "utf-8")\<close> accepts: no surrogate, nothing beyond \<open>0x10FFFF\<close>.\<close>

definition encodable :: "pystr \<Rightarrow> bool" where
  "encodable s = list_all (\<lambda>c. c < 0xD800 \<or> (0xE000 \<le> c \<and> c < 0x110000)) s"

text \<open>The number of positions of \<open>s\<close> at which \<open>pat\<close> occurs.\<close>

fun count_occ :: "pystr \<Rightarrow> pystr \<Rightarrow> nat" where
  "count_occ pat [] = (if pat = [] then 1 else 0)"
| "count_occ pat (c # cs) = (if prefix pat (c # cs) then 1 else 0) + count_occ pat cs"

text \<open>
  The announcement as the specification words it: the nine header lines, each ended by
  CR LF, then an empty line.
\<close>

definition spec_announcement_lines :: "pystr \<Rightarrow> pystr \<Rightarrow> pystr list" where
  \<open>spec_announcement_lines url ident =
     [lit ''NOTIFY * HTTP/1.1'',
      lit ''HOST: 239.255.255.250:1900'',
      lit ''CACHE-CONTROL: max-age=60'',
      lit ''LOCATION: '' @ url @ lit ''/description.xml'',
      lit ''SERVER: SABnzbd'',
      lit ''NT: upnp:rootdevice'',
      lit ''USN: uuid:'' @ ident @ lit ''::upnp:rootdevice'',
      lit ''NTS: ssdp:alive'',
      lit ''OPT: "http://schemas.upnp.org/upnp/1/0/"; ns=01'']\<close>

definition spec_announcement :: "pystr \<Rightarrow> pystr \<Rightarrow> pystr" where
  "spec_announcement url ident =
     concat (map (\<lambda>l. l @ [0x0D, 0x0A]) (spec_announcement_lines url ident)) @ [0x0D, 0x0A]"

section \<open>Strings, encoding and the constructor\<close>

lemma replace_single:
  "replace [c] new s = concat (map (\<lambda>x. if x = c then new else [x]) s)"
proof (induction s)
  case Nil
  show ?case by (subst replace.simps) simp
next
  case (Cons a s)
  show ?case by (subst replace.simps) (simp add: Cons.IH)
qed

lemma bare_lf_str_replace:
  "\<not> bare_lf_str p (concat (map (\<lambda>x. if x = 0x0A then [0x0D, 0x0A] else [x]) s))"
  by (induction s arbitrary: p) auto

lemma byte_of_nat_eq:
  "n < 256 \<Longrightarrow> m < 256 \<Longrightarrow> ((of_nat n :: byte) = of_nat m) = (n = m)"
  by (simp add: word_of_nat_eq_iff take_bit_nat_eq_self)

lemma byte_of_nat_eq_numeral:
  "n < 256 \<Longrightarrow> ((of_nat n :: byte) = 0x0A) = (n = 10)"
  "n < 256 \<Longrightarrow> ((of_nat n :: byte) = 0x0D) = (n = 13)"
  using byte_of_nat_eq [of n 10] byte_of_nat_eq [of n 13] by simp_all

lemma bare_lf_append:
  "bare_lf p (xs @ ys) = (bare_lf p xs \<or> bare_lf (last (p # xs)) ys)"
  by (induction xs arbitrary: p) auto

lemma utf8_char_cases:
  assumes "utf8_char c = Inr e"
  shows "(c < 0x80 \<and> e = [of_nat c]) \<or> (0x80 \<le> c \<and> e \<noteq> [] \<and> (\<forall>b \<in> set e. b \<noteq> 0x0A))"
proof (cases "c < 0x80")
  case True
  with assms show ?thesis by (simp add: utf8_char_def)
next
  case False
  have ne: "n < 256 \<Longrightarrow> 0x80 \<le> n \<Longrightarrow> (of_nat n :: byte) \<noteq> 0x0A" for n
    using byte_of_nat_eq_numeral(1) [of n] by simp
  have cont: "(of_nat (0x80 + x mod 0x40) :: byte) \<noteq> 0x0A" for x
    by (rule ne) simp_all
  have b2: "c < 0x800 \<Longrightarrow> (of_nat (0xC0 + c div 0x40) :: byte) \<noteq> 0x0A"
    by (rule ne) arith+
  have b3: "c < 0x10000 \<Longrightarrow> (of_nat (0xE0 + c div 0x1000) :: byte) \<noteq> 0x0A"
    by (rule ne) arith+
  have b4: "c < 0x110000 \<Longrightarrow> (of_nat (0xF0 + c div 0x40000) :: byte) \<noteq> 0x0A"
    by (rule ne) arith+
  from False assms show ?thesis
    by (auto simp: utf8_char_def cont b2 b3 b4 simp del: of_nat_add of_nat_numeral
             split: if_splits)
qed

lemma bare_lf_no_lf: "\<forall>b \<in> set e. b \<noteq> 0x0A \<Longrightarrow> \<not> bare_lf p e"
  by (induction e arbitrary: p) auto

lemma bare_lf_bytes_utf8:
  "bytes_utf8 s = Inr bs \<Longrightarrow> \<not> bare_lf_str p s \<Longrightarrow> (p = 0x0D \<longrightarrow> pb = 0x0D)
     \<Longrightarrow> \<not> bare_lf pb bs"
proof (induction s arbitrary: p pb bs)
  case Nil
  then show ?case by simp
next
  case (Cons c cs)
  from Cons.prems(1) obtain e rest where
    e: "utf8_char c = Inr e" and rest: "bytes_utf8 cs = Inr rest" and bs: "bs = e @ rest"
    by (auto split: sum.splits)
  from Cons.prems(2) have tl: "\<not> bare_lf_str c cs" and hd: "c = 0x0A \<longrightarrow> p = 0x0D"
    by auto
  from utf8_char_cases [OF e] show ?case
  proof
    assume a: "c < 0x80 \<and> e = [of_nat c]"
    then have c256: "c < 256" by simp
    have "\<not> bare_lf (of_nat c) rest"
      by (rule Cons.IH [OF rest tl]) (simp add: byte_of_nat_eq_numeral c256)
    moreover have "\<not> bare_lf pb [of_nat c]"
      using hd Cons.prems(3) by (simp add: byte_of_nat_eq_numeral c256)
    ultimately show ?thesis using a by (simp add: bs bare_lf_append)
  next
    assume a: "0x80 \<le> c \<and> e \<noteq> [] \<and> (\<forall>b \<in> set e. b \<noteq> 0x0A)"
    then have "c \<noteq> 0x0D" by simp
    then have "\<not> bare_lf (last (pb # e)) rest"
      by (intro Cons.IH [OF rest tl]) simp
    moreover have "\<not> bare_lf pb e" using a by (simp add: bare_lf_no_lf)
    ultimately show ?thesis by (simp add: bs bare_lf_append)
  qed
qed

lemma utf8_char_Inr_iff:
  "(\<exists>e. utf8_char c = Inr e) = (c < 0xD800 \<or> (0xE000 \<le> c \<and> c < 0x110000))"
  by (auto simp: utf8_char_def)

lemma bytes_utf8_Inr_iff: "(\<exists>bs. bytes_utf8 s = Inr bs) = encodable s"
proof (induction s)
  case Nil
  show ?case by (simp add: encodable_def)
next
  case (Cons c cs)
  have "(\<exists>bs. bytes_utf8 (c # cs) = Inr bs) = ((\<exists>e. utf8_char c = Inr e) \<and> (\<exists>r. bytes_utf8 cs = Inr r))"
    by (auto split: sum.splits)
  also have "\<dots> = encodable (c # cs)"
    unfolding Cons.IH utf8_char_Inr_iff by (simp add: encodable_def)
  finally show ?case .
qed

lemma encodable_append [simp]: "encodable (xs @ ys) = (encodable xs \<and> encodable ys)"
  by (simp add: encodable_def)

lemma encodable_lit [simp]: "encodable (lit s)"
proof -
  have "of_char c < (0xD800 :: nat)" for c :: char
  proof -
    have "(of_char c :: nat) mod 256 < 256" by (rule mod_less_divisor) simp
    then have "(of_char c :: nat) < 256" unfolding of_char_mod_256 .
    then show ?thesis by linarith
  qed
  then show ?thesis by (simp add: encodable_def lit_def list_all_iff)
qed

lemma encodable_replace_lf [simp]:
  "encodable (replace [0x0A] [0x0D, 0x0A] s) = encodable s"
  unfolding replace_single by (induction s) (auto simp: encodable_def)

lemma hex_digit_range: "d < 16 \<Longrightarrow> hex_digit d \<in> set (lit ''0123456789abcdef'')"
  unfolding hex_digit_def by (rule nth_mem) (simp add: lit_def)

lemma set_UUID_hex: "set (UUID_hex u) \<subseteq> set (lit ''0123456789abcdef'')"
proof -
  have "unat (w AND 0xf) < 16" for w :: UUID
  proof -
    have "unat (w AND 0xf) \<le> unat (0xf :: UUID)"
      by (rule word_and_le1 [THEN word_le_nat_alt [THEN iffD1]])
    then show ?thesis by simp
  qed
  then show ?thesis by (auto simp: UUID_hex_def intro: hex_digit_range)
qed

lemma set_UUID_str: "set (UUID_str u) \<subseteq> set (lit ''0123456789abcdef-'')"
proof -
  have "set (UUID_str u) \<subseteq> set (UUID_hex u) \<union> set (lit ''-'')"
    by (auto simp: UUID_str_def Let_def dest: in_set_takeD in_set_dropD)
  also have "\<dots> \<subseteq> set (lit ''0123456789abcdef'') \<union> set (lit ''-'')"
    using set_UUID_hex [of u] by blast
  also have "\<dots> = set (lit ''0123456789abcdef-'')" by (auto simp: lit_def)
  finally show ?thesis .
qed

lemma encodable_UUID_str [simp]: "encodable (UUID_str u)"
proof -
  have "c \<in> set (lit ''0123456789abcdef-'') \<Longrightarrow> c < 0xD800" for c
    by (auto simp: lit_def)
  with set_UUID_str [of u] show ?thesis
    by (auto simp: encodable_def list_all_iff)
qed

lemma uuid3_Inr_iff: "(\<exists>u. uuid3 ns name = Inr u) = encodable name"
  unfolding bytes_utf8_Inr_iff [symmetric] by (auto simp: uuid3_def split: sum.splits)

lemma SSDP_init_Inr_iff:
  "(\<exists>self. SSDP_init (Inr myhostname) host server_name url description = Inr self)
     = (encodable (myhostname @ host) \<and> encodable url)"
proof -
  have b: "(\<exists>bs. bytes_utf8 (replace [0x0A] [0x0D, 0x0A] (mySSDPbroadcast_fstring url u)) = Inr bs)
             = encodable url" for u
    unfolding bytes_utf8_Inr_iff by (simp add: mySSDPbroadcast_fstring_def)
  have u: "(\<exists>u. uuid3 NAMESPACE_DNS (myhostname @ host) = Inr u) = encodable (myhostname @ host)"
    by (rule uuid3_Inr_iff)
  show ?thesis
  proof (cases "uuid3 NAMESPACE_DNS (myhostname @ host)")
    case (Inl e)
    with u show ?thesis by (auto simp: SSDP_init_def)
  next
    case (Inr uu)
    with u have "encodable (myhostname @ host)" by auto
    with Inr b [of uu] show ?thesis
      by (cases "bytes_utf8 (replace [0x0A] [0x0D, 0x0A] (mySSDPbroadcast_fstring url uu))")
         (auto simp: SSDP_init_def)
  qed
qed

lemma SSDP_init_hostname_fails:
  "SSDP_init (Inl e) host server_name url description = Inl e"
  by (simp add: SSDP_init_def)

lemma SSDP_init_InrD:
  assumes "SSDP_init g host server_name url description = Inr self"
  obtains myhostname u where
    "g = Inr myhostname"
    "uuid3 NAMESPACE_DNS (myhostname @ host) = Inr u"
    "bytes_utf8 (replace [0x0A] [0x0D, 0x0A] (mySSDPbroadcast_fstring url u))
       = Inr (SSDP__mySSDPbroadcast self)"
    "self = \<lparr> Thread_started = False, Thread_is_stopped = False,
                SSDP__host = host, SSDP__server_name = server_name, SSDP__url = url,
                SSDP__description = description, SSDP__myhostname = myhostname,
                SSDP__uuid = u, SSDP__mySSDPbroadcast = SSDP__mySSDPbroadcast self,
                SSDP__myxml = myxml_fstring url myhostname u, SSDP__stop = False \<rparr>"
  using assms by (auto simp: SSDP_init_def split: sum.splits)

lemma SSDP_init_lit:
  "\<exists>self. SSDP_init (Inr (lit myhostname)) (lit host) server_name (lit url) description
            = Inr self"
  unfolding SSDP_init_Inr_iff by simp


text \<open>
  A test vector: the identifier of the name \<open>server192.168.1.5\<close>, as CPython's \<open>uuid\<close>
  module computes it.
\<close>

lemma uuid3_example:
  "uuid3 NAMESPACE_DNS (lit ''server192.168.1.5'') = Inr 0x74bf85f8788939ac90932d08b10e2e4c"
  by code_simp

lemma UUID_str_example:
  "UUID_str 0x74bf85f8788939ac90932d08b10e2e4c = lit ''74bf85f8-7889-39ac-9093-2d08b10e2e4c''"
  by code_simp

section \<open>Threads, the store and the wrappers\<close>

lemma join_wait_stopped:
  "Thread_is_stopped self \<Longrightarrow> join_wait pc self net = Some (pc, self, net)"
  by (subst join_wait.simps) simp

lemma join_wait_flag_At_test:
  assumes "SSDP__stop self"
  shows "\<exists>pc'. join_wait At_test self net = Some (pc', self\<lparr>Thread_is_stopped := True\<rparr>, net)"
proof (cases "Thread_is_stopped self")
  case True
  then show ?thesis by (simp add: join_wait_stopped)
next
  case False
  with assms show ?thesis
    by (subst join_wait.simps) (simp add: run_step_def join_wait_stopped)
qed

lemma join_wait_flag:
  assumes "SSDP__stop self"
  shows "\<exists>pc' net'. join_wait pc self net
             = Some (pc', self\<lparr>Thread_is_stopped := True\<rparr>, net')
           \<and> (net' = net \<or> net' = net @ [(SSDP__mySSDPbroadcast self, MCAST_GRP,
                                              MCAST_PORT, MULTICAST_TTL)])"
proof (cases "Thread_is_stopped self")
  case True
  then show ?thesis by (simp add: join_wait_stopped)
next
  case False
  show ?thesis
  proof (cases pc)
    case At_test
    with join_wait_flag_At_test [OF assms, of net] show ?thesis by auto
  next
    case In_body
    let ?net = "net @ [(SSDP__mySSDPbroadcast self, MCAST_GRP, MCAST_PORT, MULTICAST_TTL)]"
    from False In_body have "join_wait pc self net = join_wait At_test self ?net"
      by (subst join_wait.simps) (simp add: run_step_def)
    with join_wait_flag_At_test [OF assms, of ?net] show ?thesis by auto
  qed
qed

lemma join_wait_result:
  assumes "join_wait pc self net = Some y"
  shows "fst (snd y) = self\<lparr>Thread_is_stopped := True\<rparr>"
proof (rule join_wait.raw_induct
    [where P = "\<lambda>pc self net y. fst (snd y) = self\<lparr>Thread_is_stopped := True\<rparr>",
     OF _ assms])
  fix f :: "run_pc \<Rightarrow> SSDP \<Rightarrow> datagram list \<Rightarrow> (run_pc \<times> SSDP \<times> datagram list) option"
    and pc self net y
  assume IH: "\<And>p a b z. f p a b = Some z \<Longrightarrow> fst (snd z) = a\<lparr>Thread_is_stopped := True\<rparr>"
    and eq: "(if Thread_is_stopped self then Some (pc, self, net)
              else f (fst (run_step True pc self net))
                     (fst (snd (run_step True pc self net)))
                     (snd (snd (run_step True pc self net)))) = Some y"
  show "fst (snd y) = self\<lparr>Thread_is_stopped := True\<rparr>"
  proof (cases "Thread_is_stopped self")
    case True
    with eq show ?thesis by auto
  next
    case False
    with eq have "f (fst (run_step True pc self net))
                    (fst (snd (run_step True pc self net)))
                    (snd (snd (run_step True pc self net))) = Some y"
      by simp
    then have "fst (snd y)
        = (fst (snd (run_step True pc self net)))\<lparr>Thread_is_stopped := True\<rparr>"
      by (rule IH)
    then show ?thesis by (auto simp: run_step_def split: if_splits run_pc.splits)
  qed
qed

lemma join_result:
  "join pc self net = Some (Inr (pc', obj, net'))
     \<Longrightarrow> obj = self\<lparr>Thread_is_stopped := True\<rparr>"
  using join_wait_result [of pc self net "(pc', obj, net')"]
  by (auto simp: join_def split: if_splits)

lemma join_flag:
  assumes "Thread_started self" and "SSDP__stop self"
  shows "\<exists>pc' net'. join pc self net
             = Some (Inr (pc', self\<lparr>Thread_is_stopped := True\<rparr>, net'))
           \<and> (net' = net \<or> net' = net @ [(SSDP__mySSDPbroadcast self, MCAST_GRP,
                                              MCAST_PORT, MULTICAST_TTL)])"
  using join_wait_flag [OF assms(2), of pc net] assms(1) by (auto simp: join_def)

lemma stop_ssdp_alive:
  assumes "module__SSDP w = Some r" and "r < length (heap w)" and "is_alive (heap w ! r)"
  shows "\<exists>pc net. stop_ssdp w = Some (Return (),
           w\<lparr>heap := (heap w)[r := (heap w ! r)\<lparr>SSDP__stop := True, Thread_is_stopped := True\<rparr>],
             network := net, run_at := (run_at w)(r := pc)\<rparr>)
         \<and> (net = network w
              \<or> net = network w @ [(SSDP__mySSDPbroadcast (heap w ! r), MCAST_GRP,
                                     MCAST_PORT, MULTICAST_TTL)])"
proof -
  let ?s = "stop (heap w ! r)"
  from assms(3) have "Thread_started ?s" "SSDP__stop ?s"
    by (simp_all add: stop_def is_alive_def)
  from join_flag [OF this, of "run_at w r" "network w"] obtain pc net where
    j: "join (run_at w r) ?s (network w) = Some (Inr (pc, ?s\<lparr>Thread_is_stopped := True\<rparr>, net))"
    and n: "net = network w
      \<or> net = network w @ [(SSDP__mySSDPbroadcast ?s, MCAST_GRP, MCAST_PORT, MULTICAST_TTL)]"
    by blast
  from assms j have "stop_ssdp w = Some (Return (),
      w\<lparr>heap := (heap w)[r := (heap w ! r)\<lparr>SSDP__stop := True, Thread_is_stopped := True\<rparr>],
        network := net, run_at := (run_at w)(r := pc)\<rparr>)"
    by (simp add: stop_ssdp_def Let_def stop_def)
  with n show ?thesis by (auto simp: stop_def)
qed

text \<open>
  A thread that is in the body of its loop when \<open>stop_ssdp\<close> is called sends its
  datagram before \<open>stop_ssdp\<close> returns.
\<close>

lemma stop_ssdp_in_body:
  assumes "module__SSDP w = Some r" and "r < length (heap w)" and "is_alive (heap w ! r)"
    and "run_at w r = In_body"
  shows "\<exists>w'. stop_ssdp w = Some (Return (), w')
           \<and> network w' = network w @ [(SSDP__mySSDPbroadcast (heap w ! r), MCAST_GRP,
                                          MCAST_PORT, MULTICAST_TTL)]"
proof -
  let ?s = "stop (heap w ! r)"
  let ?net = "network w @ [(SSDP__mySSDPbroadcast (heap w ! r), MCAST_GRP, MCAST_PORT,
                            MULTICAST_TTL)]"
  from assms(3) have s: "Thread_started ?s" "SSDP__stop ?s" "\<not> Thread_is_stopped ?s"
    by (simp_all add: stop_def is_alive_def)
  have "join_wait In_body ?s (network w) = join_wait At_test ?s ?net"
    using s by (subst join_wait.simps) (simp add: run_step_def stop_def)
  also have "\<dots> = Some (At_test, ?s\<lparr>Thread_is_stopped := True\<rparr>, ?net)"
    using s by (subst join_wait.simps) (simp add: run_step_def join_wait_stopped)
  finally have "join (run_at w r) ?s (network w)
      = Some (Inr (At_test, ?s\<lparr>Thread_is_stopped := True\<rparr>, ?net))"
    using s assms(4) by (simp add: join_def)
  with assms show ?thesis by (simp add: stop_ssdp_def Let_def)
qed

lemma stop_ssdp_not_alive:
  "module__SSDP w = Some r \<Longrightarrow> \<not> is_alive (heap w ! r) \<Longrightarrow> stop_ssdp w = Some (Return (), w)"
  by (simp add: stop_ssdp_def)

lemma stop_ssdp_None: "module__SSDP w = None \<Longrightarrow> stop_ssdp w = Some (Return (), w)"
  by (simp add: stop_ssdp_def)

lemma changed_only_state_refl [simp]: "changed_only_state a a"
  by (simp add: changed_only_state_def)

lemma changed_only_state_trans:
  "changed_only_state a b \<Longrightarrow> changed_only_state b c \<Longrightarrow> changed_only_state a c"
  unfolding changed_only_state_def
  by (cases a, cases b, cases c) simp

lemma start_ssdp_wf: "wf_world (snd (start_ssdp g host server_name url description w)) = 
   (case SSDP_init g host server_name url description of Inl e \<Rightarrow> wf_world w | Inr obj \<Rightarrow> True)"
  by (auto simp: start_ssdp_def Let_def wf_world_def start_def split: sum.splits option.splits)

lemma start_ssdp_old:
  assumes "r < length (heap w)"
  shows "r < length (heap (snd (start_ssdp g host server_name url description w)))
         \<and> heap (snd (start_ssdp g host server_name url description w)) ! r = heap w ! r"
  using assms by (auto simp: start_ssdp_def Let_def nth_append split: sum.splits)

lemma stop_ssdp_cases:
  assumes "wf_world w" and "stop_ssdp w = Some (res, w')"
  shows "w' = w \<or> (\<exists>r pc net. module__SSDP w = Some r \<and> r < length (heap w)
           \<and> is_alive (heap w ! r)
           \<and> w' = w\<lparr>heap := (heap w)[r := (heap w ! r)\<lparr>SSDP__stop := True,
                                                        Thread_is_stopped := True\<rparr>],
                    network := net, run_at := (run_at w)(r := pc)\<rparr>)"
proof (cases "module__SSDP w")
  case None
  with assms(2) show ?thesis by (simp add: stop_ssdp_None)
next
  case (Some r)
  with assms(1) have r: "r < length (heap w)" by (simp add: wf_world_def)
  show ?thesis
  proof (cases "is_alive (heap w ! r)")
    case True
    from stop_ssdp_alive [OF Some r True] assms(2) Some r True show ?thesis by auto
  next
    case False
    with Some assms(2) show ?thesis by (simp add: stop_ssdp_not_alive)
  qed
qed

lemma SSDP_init_fresh:
  "SSDP_init g host server_name url description = Inr self
     \<Longrightarrow> \<not> SSDP__stop self \<and> \<not> Thread_started self \<and> \<not> Thread_is_stopped self"
  by (auto simp: SSDP_init_def split: sum.splits)

lemma changed_only_state_update:
  "changed_only_state a (a\<lparr>Thread_started := x\<rparr>)"
  "changed_only_state a (a\<lparr>Thread_is_stopped := y\<rparr>)"
  "changed_only_state a (a\<lparr>SSDP__stop := z\<rparr>)"
  "changed_only_state a (a\<lparr>SSDP__stop := z, Thread_is_stopped := y\<rparr>)"
  by (simp_all add: changed_only_state_def)

lemma exec_wf: "wf_world w \<Longrightarrow> exec e w = Some w' \<Longrightarrow> wf_world w'"
proof (cases e)
  case (Start_ssdp g host server_name url description)
  assume "wf_world w" "exec e w = Some w'"
  with Start_ssdp show ?thesis by (auto simp: start_ssdp_wf split: sum.splits)
next
  case Stop_ssdp
  assume "wf_world w" "exec e w = Some w'"
  with Stop_ssdp obtain res where "stop_ssdp w = Some (res, w')" by auto
  from stop_ssdp_cases [OF \<open>wf_world w\<close> this] \<open>wf_world w\<close> show ?thesis
    by (auto simp: wf_world_def split: option.splits)
qed (auto simp: wf_world_def split: option.splits sum.splits if_splits prod.splits)

lemma exec_old:
  assumes "wf_world w" and "exec e w = Some w'" and "r < length (heap w)"
  shows "r < length (heap w') \<and> changed_only_state (heap w ! r) (heap w' ! r)
         \<and> (SSDP__stop (heap w ! r) \<longrightarrow> SSDP__stop (heap w' ! r))
         \<and> (SSDP__stop (heap w' ! r) \<and> \<not> SSDP__stop (heap w ! r)
              \<longrightarrow> e = Call_stop r \<or> (e = Stop_ssdp \<and> module__SSDP w = Some r))"
proof (cases e)
  case (Start_ssdp g host server_name url description)
  with assms(2) have "w' = snd (start_ssdp g host server_name url description w)" by simp
  with start_ssdp_old [OF assms(3)] show ?thesis by simp
next
  case Stop_ssdp
  with assms(2) obtain res where "stop_ssdp w = Some (res, w')" by auto
  from stop_ssdp_cases [OF assms(1) this] assms(3) Stop_ssdp show ?thesis
    by (cases "module__SSDP w = Some r")
       (auto simp: nth_list_update changed_only_state_update)
next
  case (Construct g host server_name url description)
  with assms(2,3) show ?thesis by (auto simp: nth_append split: sum.splits)
next
  case (Call_start r')
  with assms(2,3) show ?thesis
    by (auto simp: nth_list_update start_def changed_only_state_update
             split: sum.splits if_splits)
next
  case (Call_stop r')
  with assms(2,3) show ?thesis
    by (auto simp: nth_list_update stop_def changed_only_state_update split: if_splits)
next
  case (Call_join r')
  with assms(2,3) show ?thesis
    by (auto simp: nth_list_update changed_only_state_update
             split: sum.splits if_splits option.splits dest!: join_result)
next
  case (Thread_step r' sent)
  with assms(2,3) show ?thesis
    by (auto simp: nth_list_update run_step_def changed_only_state_update
             split: if_splits run_pc.splits)
qed (use assms in auto)

lemma exec_new:
  assumes "exec e w = Some w'" and "length (heap w) \<le> r" and "r < length (heap w')"
  shows "\<not> SSDP__stop (heap w' ! r)"
proof (cases e)
  case (Start_ssdp g host server_name url description)
  with assms show ?thesis
    by (auto simp: start_ssdp_def Let_def start_def nth_append
             split: sum.splits if_splits dest: SSDP_init_fresh)
next
  case Stop_ssdp
  with assms(1) obtain res where s: "stop_ssdp w = Some (res, w')" by auto
  then have "length (heap w') = length (heap w)"
    by (auto simp: stop_ssdp_def Let_def split: option.splits if_splits sum.splits)
  with assms(2,3) show ?thesis by simp
next
  case (Construct g host server_name url description)
  with assms show ?thesis
    by (auto simp: nth_append split: sum.splits dest: SSDP_init_fresh)
qed (use assms in \<open>auto split: sum.splits if_splits option.splits prod.splits\<close>)

lemma execs_invariant:
  assumes "wf_world w" and "execs es w = Some w'"
  shows "wf_world w'
       \<and> (\<forall>r < length (heap w).
             r < length (heap w') \<and> changed_only_state (heap w ! r) (heap w' ! r)
             \<and> (SSDP__stop (heap w ! r) \<longrightarrow> SSDP__stop (heap w' ! r))
             \<and> (SSDP__stop (heap w' ! r) \<and> \<not> SSDP__stop (heap w ! r)
                  \<longrightarrow> Call_stop r \<in> set es \<or> Stop_ssdp \<in> set es))
       \<and> (\<forall>r. length (heap w) \<le> r \<and> r < length (heap w') \<and> SSDP__stop (heap w' ! r)
             \<longrightarrow> Call_stop r \<in> set es \<or> Stop_ssdp \<in> set es)"
  using assms
proof (induction es arbitrary: w)
  case Nil
  then show ?case by simp
next
  case (Cons e es)
  from Cons.prems(2) obtain w1 where
    e: "exec e w = Some w1" and es: "execs es w1 = Some w'"
    by (auto split: option.splits)
  from exec_wf [OF Cons.prems(1) e] have wf1: "wf_world w1" .
  note IH = Cons.IH [OF wf1 es]
  have old: "r < length (heap w') \<and> changed_only_state (heap w ! r) (heap w' ! r)
             \<and> (SSDP__stop (heap w ! r) \<longrightarrow> SSDP__stop (heap w' ! r))
             \<and> (SSDP__stop (heap w' ! r) \<and> \<not> SSDP__stop (heap w ! r)
                  \<longrightarrow> Call_stop r \<in> set (e # es) \<or> Stop_ssdp \<in> set (e # es))"
    if r: "r < length (heap w)" for r
  proof -
    from exec_old [OF Cons.prems(1) e r] have
      s1: "r < length (heap w1)" "changed_only_state (heap w ! r) (heap w1 ! r)"
        "SSDP__stop (heap w ! r) \<longrightarrow> SSDP__stop (heap w1 ! r)"
        "SSDP__stop (heap w1 ! r) \<and> \<not> SSDP__stop (heap w ! r)
           \<longrightarrow> e = Call_stop r \<or> e = Stop_ssdp"
      by auto
    from IH s1(1) have
      s2: "r < length (heap w')" "changed_only_state (heap w1 ! r) (heap w' ! r)"
        "SSDP__stop (heap w1 ! r) \<longrightarrow> SSDP__stop (heap w' ! r)"
        "SSDP__stop (heap w' ! r) \<and> \<not> SSDP__stop (heap w1 ! r)
           \<longrightarrow> Call_stop r \<in> set es \<or> Stop_ssdp \<in> set es"
      by auto
    from s1 s2 changed_only_state_trans [OF s1(2) s2(2)] show ?thesis by auto
  qed
  have new: "Call_stop r \<in> set (e # es) \<or> Stop_ssdp \<in> set (e # es)"
    if r: "length (heap w) \<le> r" "r < length (heap w')" "SSDP__stop (heap w' ! r)" for r
  proof (cases "r < length (heap w1)")
    case True
    from exec_new [OF e r(1) True] have "\<not> SSDP__stop (heap w1 ! r)" .
    with IH True r(3) show ?thesis by auto
  next
    case False
    with IH r(2,3) show ?thesis by auto
  qed
  from IH old new show ?case by blast
qed

lemma changed_only_state_fields:
  assumes "changed_only_state a b"
  shows "SSDP__host b = SSDP__host a" "SSDP__server_name b = SSDP__server_name a"
    "SSDP__url b = SSDP__url a" "SSDP__description b = SSDP__description a"
    "SSDP__myhostname b = SSDP__myhostname a" "SSDP__uuid b = SSDP__uuid a"
    "SSDP__mySSDPbroadcast b = SSDP__mySSDPbroadcast a" "SSDP__myxml b = SSDP__myxml a"
proof -
  from assms have "b = a\<lparr>Thread_started := Thread_started b,
      Thread_is_stopped := Thread_is_stopped b, SSDP__stop := SSDP__stop b\<rparr>"
    by (simp add: changed_only_state_def)
  then have
    "SSDP__host b = SSDP__host (a\<lparr>Thread_started := Thread_started b,
       Thread_is_stopped := Thread_is_stopped b, SSDP__stop := SSDP__stop b\<rparr>)"
    "SSDP__server_name b = SSDP__server_name (a\<lparr>Thread_started := Thread_started b,
       Thread_is_stopped := Thread_is_stopped b, SSDP__stop := SSDP__stop b\<rparr>)"
    "SSDP__url b = SSDP__url (a\<lparr>Thread_started := Thread_started b,
       Thread_is_stopped := Thread_is_stopped b, SSDP__stop := SSDP__stop b\<rparr>)"
    "SSDP__description b = SSDP__description (a\<lparr>Thread_started := Thread_started b,
       Thread_is_stopped := Thread_is_stopped b, SSDP__stop := SSDP__stop b\<rparr>)"
    "SSDP__myhostname b = SSDP__myhostname (a\<lparr>Thread_started := Thread_started b,
       Thread_is_stopped := Thread_is_stopped b, SSDP__stop := SSDP__stop b\<rparr>)"
    "SSDP__uuid b = SSDP__uuid (a\<lparr>Thread_started := Thread_started b,
       Thread_is_stopped := Thread_is_stopped b, SSDP__stop := SSDP__stop b\<rparr>)"
    "SSDP__mySSDPbroadcast b = SSDP__mySSDPbroadcast (a\<lparr>Thread_started := Thread_started b,
       Thread_is_stopped := Thread_is_stopped b, SSDP__stop := SSDP__stop b\<rparr>)"
    "SSDP__myxml b = SSDP__myxml (a\<lparr>Thread_started := Thread_started b,
       Thread_is_stopped := Thread_is_stopped b, SSDP__stop := SSDP__stop b\<rparr>)"
    by simp_all
  then show "SSDP__host b = SSDP__host a" "SSDP__server_name b = SSDP__server_name a"
    "SSDP__url b = SSDP__url a" "SSDP__description b = SSDP__description a"
    "SSDP__myhostname b = SSDP__myhostname a" "SSDP__uuid b = SSDP__uuid a"
    "SSDP__mySSDPbroadcast b = SSDP__mySSDPbroadcast a" "SSDP__myxml b = SSDP__myxml a"
    by simp_all
qed

lemma start_ssdp_Return:
  assumes "SSDP_init g host server_name url description = Inr obj"
  shows "start_ssdp g host server_name url description w
         = (Return (), w\<lparr>heap := heap w @ [obj\<lparr>Thread_started := True\<rparr>],
                         module__SSDP := Some (length (heap w)),
                         run_at := (run_at w)(length (heap w) := At_test)\<rparr>)"
  using assms SSDP_init_fresh [OF assms]
  by (simp add: start_ssdp_def Let_def start_def)

lemma start_ssdp_ReturnD:
  assumes "start_ssdp g host server_name url description w = (Return (), w')"
  obtains obj where "SSDP_init g host server_name url description = Inr obj"
    "w' = w\<lparr>heap := heap w @ [obj\<lparr>Thread_started := True\<rparr>],
           module__SSDP := Some (length (heap w)),
           run_at := (run_at w)(length (heap w) := At_test)\<rparr>"
proof (cases "SSDP_init g host server_name url description")
  case (Inl e)
  with assms show ?thesis by (simp add: start_ssdp_def)
next
  case (Inr obj)
  from start_ssdp_Return [OF Inr, of w] assms that [OF Inr] show ?thesis by simp
qed

lemma exec_module_None:
  assumes "exec e w = Some w'" and "module__SSDP w = None" and "\<not> is_Start_ssdp e"
  shows "module__SSDP w' = None"
  using assms
  by (cases e) (auto simp: stop_ssdp_None split: sum.splits if_splits option.splits prod.splits)

lemma execs_module_None:
  "execs es w = Some w' \<Longrightarrow> module__SSDP w = None \<Longrightarrow> \<forall>e \<in> set es. \<not> is_Start_ssdp e
     \<Longrightarrow> module__SSDP w' = None"
proof (induction es arbitrary: w)
  case Nil
  then show ?case by simp
next
  case (Cons e es)
  from Cons.prems(1) obtain w1 where
    e: "exec e w = Some w1" and es: "execs es w1 = Some w'"
    by (auto split: option.splits)
  from exec_module_None [OF e Cons.prems(2)] Cons.prems(3) have "module__SSDP w1 = None"
    by simp
  with Cons.IH [OF es] Cons.prems(3) show ?case by simp
qed

lemma myxml_nonempty:
  "SSDP_init g host server_name url description = Inr self \<Longrightarrow> SSDP__myxml self \<noteq> []"
  by (auto simp: SSDP_init_def myxml_fstring_def lit_def split: sum.splits)

section \<open>The two payloads\<close>

lemma upt32: "[0..<32] = [0,1,2,3,4,5,6,7,8,9,10,11,12,13,14,15,16,17,18,19,20,21,22,23,24,25,26,27,28,29,30,31]"
  by code_simp

lemma hex_digit_unat: "hex_digit (unat ((w :: UUID) AND 0xf)) \<in> set (lit ''0123456789abcdef'')"
proof -
  have "unat (w AND 0xf) \<le> unat (0xf :: UUID)"
    by (rule word_and_le1 [THEN word_le_nat_alt [THEN iffD1]])
  then have "unat (w AND 0xf) < 16" by simp
  then show ?thesis by (rule hex_digit_range)
qed

lemma UUID_str_once:
  "count_occ (UUID_str u) (lit ''uuid:'' @ UUID_str u @ lit ''::upnp:rootdevice'') = 1"
proof -
  define g where "g i = hex_digit (unat (drop_bit (4 * (31 - i)) u AND 0xf))" for i
  have hex: "UUID_hex u = map g [0..<32]"
    by (simp add: UUID_hex_def g_def)
  have "g i \<noteq> 0x2D" for i
    using hex_digit_unat [of "drop_bit (4 * (31 - i)) u"] by (auto simp: g_def lit_def)
  then have ne: "(0x2D = g i) = False" "(g i = 0x2D) = False" for i
    by auto
  show ?thesis
    unfolding UUID_str_def Let_def hex upt32 by (simp add: lit_def ne)
qed

lemma replace_lf_id: "0x0A \<notin> set s \<Longrightarrow> replace [0x0A] new s = s"
  unfolding replace_single by (induction s) auto

lemma UUID_str_chars: "c \<in> set (UUID_str u) \<Longrightarrow> c \<noteq> 0x0A \<and> c \<noteq> 0x3C"
  using set_UUID_str [of u] by (auto simp: lit_def)

lemma replace_lf_append:
  "replace [0x0A] new (xs @ ys) = replace [0x0A] new xs @ replace [0x0A] new ys"
  unfolding replace_single by simp

lemma replace_lf_Cons:
  "replace [0x0A] new (c # cs) = (if c = 0x0A then new else [c]) @ replace [0x0A] new cs"
  unfolding replace_single by simp

lemma replace_lf_Nil: "replace [0x0A] new [] = []"
  unfolding replace_single by simp

lemma replace_broadcast:
  "replace [0x0A] [0x0D, 0x0A] (mySSDPbroadcast_fstring url u)
     = spec_announcement (replace [0x0A] [0x0D, 0x0A] url) (UUID_str u)"
proof -
  have u: "replace [0x0A] [0x0D, 0x0A] (UUID_str u) = UUID_str u"
    by (rule replace_lf_id) (use UUID_str_chars in blast)
  show ?thesis
    unfolding mySSDPbroadcast_fstring_def spec_announcement_def spec_announcement_lines_def
    by (simp add: replace_lf_append u lit_def replace_lf_Cons replace_lf_Nil)
qed

lemma count_occ_skip:
  "p \<notin> set xs \<Longrightarrow> count_occ (p # ps) (xs @ c # ys) = count_occ (p # ps) (c # ys)"
  by (induction xs) auto

lemma myxml_one_UDN:
  assumes "0x3C \<notin> set url" and "0x3C \<notin> set myhostname"
  shows "count_occ (lit ''<UDN>'') (myxml_fstring url myhostname u) = 1"
proof -
  have "0x3C \<notin> set (UUID_str u)" using UUID_str_chars by blast
  with assms show ?thesis
    unfolding myxml_fstring_def by (simp add: lit_def count_occ_skip)
qed

lemma myxml_parts:
  "sublist (lit ''<URLBase>'' @ url @ lit ''</URLBase>'') (myxml_fstring url myhostname u)"
  "sublist (lit ''<presentationURL>sabnzbd</presentationURL>'') (myxml_fstring url myhostname u)"
  "sublist (lit ''<friendlyName>SABnzbd ('' @ myhostname @ lit '')</friendlyName>'')
     (myxml_fstring url myhostname u)"
  "sublist (lit ''<UDN>uuid:'' @ UUID_str u @ lit ''</UDN>'') (myxml_fstring url myhostname u)"
proof -
  let ?doc = "myxml_fstring url myhostname u"
  have doc: \<open>?doc =
      lit ''<?xml version="1.0" encoding="UTF-8" ?>\<newline><root xmlns="urn:schemas-upnp-org:device-1-0">\<newline><specVersion>\<newline><major>1</major>\<newline><minor>0</minor>\<newline></specVersion>\<newline>''
      @ (lit ''<URLBase>'' @ url @ lit ''</URLBase>'')
      @ lit ''\<newline><device>\<newline><deviceType>urn:schemas-upnp-org:device:Basic:1</deviceType>\<newline>''
      @ (lit ''<friendlyName>SABnzbd ('' @ myhostname @ lit '')</friendlyName>'')
      @ lit ''\<newline><manufacturer>SABnzbd Team</manufacturer>\<newline><manufacturerURL>http://www.sabnzbd.org</manufacturerURL>\<newline><modelDescription>SABnzbd downloader</modelDescription>\<newline><modelURL>http://www.sabnzbd.org</modelURL>\<newline>''
      @ (lit ''<UDN>uuid:'' @ UUID_str u @ lit ''</UDN>'')
      @ lit ''\<newline>''
      @ lit ''<presentationURL>sabnzbd</presentationURL>''
      @ lit ''\<newline></device>\<newline></root>''\<close>
    by (simp add: myxml_fstring_def lit_def)
  show "sublist (lit ''<URLBase>'' @ url @ lit ''</URLBase>'') ?doc"
    unfolding doc by (rule sublist_appendI)
  show "sublist (lit ''<friendlyName>SABnzbd ('' @ myhostname @ lit '')</friendlyName>'') ?doc"
    unfolding doc sublist_def by (metis append.assoc)
  show "sublist (lit ''<UDN>uuid:'' @ UUID_str u @ lit ''</UDN>'') ?doc"
    unfolding doc sublist_def by (metis append.assoc)
  show "sublist (lit ''<presentationURL>sabnzbd</presentationURL>'') ?doc"
    unfolding doc sublist_def by (metis append.assoc)
qed

lemma bytes_utf8_ascii:
  "\<forall>c \<in> set s. c < 0x80 \<Longrightarrow> bytes_utf8 s = Inr (map of_nat s)"
  by (induction s) (simp_all add: utf8_char_def)

lemma UUID_str_ascii: "c \<in> set (UUID_str u) \<Longrightarrow> c < 0x80"
  using set_UUID_str [of u] by (auto simp: lit_def)

lemma spec_announcement_ascii:
  assumes "\<forall>c \<in> set url. c < 0x80"
  shows "\<forall>c \<in> set (spec_announcement url (UUID_str u)). c < 0x80"
proof -
  have 1: "list_all (\<lambda>c. c < 0x80) url" using assms by (simp add: list_all_iff)
  have 2: "list_all (\<lambda>c. c < 0x80) (UUID_str u)"
    using UUID_str_ascii by (simp add: list_all_iff)
  have "list_all (\<lambda>c. c < 0x80) (spec_announcement url (UUID_str u))"
    by (simp add: spec_announcement_def spec_announcement_lines_def lit_def 1 2)
  then show ?thesis by (simp add: list_all_iff)
qed

lemma length_spec_announcement:
  "length (spec_announcement url ident) = 237 + length url + length ident"
  by (simp add: spec_announcement_def spec_announcement_lines_def lit_def)


lemma SSDP_init_broadcast:
  assumes "SSDP_init g host server_name url description = Inr self"
  shows "bytes_utf8 (spec_announcement (replace [0x0A] [0x0D, 0x0A] url)
           (UUID_str (SSDP__uuid self))) = Inr (SSDP__mySSDPbroadcast self)"
  using assms by (auto simp: SSDP_init_def replace_broadcast split: sum.splits)

lemma SSDP_init_myxml:
  assumes "SSDP_init (Inr myhostname) host server_name url description = Inr self"
  shows "SSDP__myxml self = myxml_fstring url myhostname (SSDP__uuid self)"
  using assms by (auto simp: SSDP_init_def split: sum.splits)


section \<open>Properties of the constructor\<close>

text \<open>
  C4. The announcement octets of every constructed \<open>SSDP\<close> object contain no bare line
  feed: every octet \<open>0x0A\<close> in them comes directly after an octet \<open>0x0D\<close>.
\<close>

theorem broadcast_crlf:
  assumes "SSDP_init g host server_name url description = Inr self"
  shows "\<not> has_bare_lf (SSDP__mySSDPbroadcast self)"
proof -
  from assms obtain myhostname u where
    b: "bytes_utf8 (replace [0x0A] [0x0D, 0x0A] (mySSDPbroadcast_fstring url u))
          = Inr (SSDP__mySSDPbroadcast self)"
    by (rule SSDP_init_InrD)
  have "\<not> bare_lf_str 0 (replace [0x0A] [0x0D, 0x0A] (mySSDPbroadcast_fstring url u))"
    unfolding replace_single by (rule bare_lf_str_replace)
  with b show ?thesis
    unfolding has_bare_lf_def by (rule bare_lf_bytes_utf8) simp
qed

theorem broadcast_crlf_witness:
  "\<exists>self. SSDP_init (Inr (lit ''nas'')) (lit ''192.168.1.50'') (lit ''TestServer'')
             (lit ''http://192.168.1.50:8080'') (lit ''x'') = Inr self
          \<and> \<not> has_bare_lf (SSDP__mySSDPbroadcast self)"
proof -
  from SSDP_init_lit obtain self where
    "SSDP_init (Inr (lit ''nas'')) (lit ''192.168.1.50'') (lit ''TestServer'')
       (lit ''http://192.168.1.50:8080'') (lit ''x'') = Inr self"
    by blast
  then show ?thesis using broadcast_crlf by blast
qed

text \<open>
  C9. Two constructions that differ only in \<open>server_name\<close> and \<open>description\<close> succeed
  together, and the objects differ in those two stored fields only: the announcement
  octets and the descriptor document are the same.
\<close>

theorem payloads_ignore_server_name_description:
  assumes "SSDP_init g host server_name url description = Inr a"
  shows "SSDP_init g host server_name' url description'
           = Inr (a\<lparr>SSDP__server_name := server_name', SSDP__description := description'\<rparr>)
         \<and> SSDP__mySSDPbroadcast (a\<lparr>SSDP__server_name := server_name',
                                      SSDP__description := description'\<rparr>)
             = SSDP__mySSDPbroadcast a
         \<and> SSDP__myxml (a\<lparr>SSDP__server_name := server_name',
                             SSDP__description := description'\<rparr>) = SSDP__myxml a"
  using assms by (auto simp: SSDP_init_def split: sum.splits)

theorem payloads_ignore_server_name_description_witness:
  "\<exists>a b. SSDP_init (Inr (lit ''nas'')) (lit ''192.168.1.50'') (lit ''TestServer'')
            (lit ''http://192.168.1.50:8080'') (lit ''x'') = Inr a
        \<and> SSDP_init (Inr (lit ''nas'')) (lit ''192.168.1.50'') (lit ''Other'')
            (lit ''http://192.168.1.50:8080'') (lit ''y'') = Inr b
        \<and> SSDP__mySSDPbroadcast b = SSDP__mySSDPbroadcast a
        \<and> SSDP__myxml b = SSDP__myxml a"
proof -
  from SSDP_init_lit obtain a where
    a: "SSDP_init (Inr (lit ''nas'')) (lit ''192.168.1.50'') (lit ''TestServer'')
          (lit ''http://192.168.1.50:8080'') (lit ''x'') = Inr a"
    by blast
  from payloads_ignore_server_name_description [OF a, of "lit ''Other''" "lit ''y''"]
  show ?thesis using a by blast
qed

text \<open>
  C1, as amended. The identifier is \<open>uuid3\<close> over the DNS namespace and the string
  \<open>myhostname + host\<close>, so it depends on the two inputs through their concatenation
  only: constructions whose hostname and host concatenate to the same string (equal
  inputs among them) have the same identifier.
\<close>

theorem uuid_of_concatenation:
  assumes "SSDP_init (Inr myhostname) host server_name url description = Inr a"
    and "SSDP_init (Inr myhostname') host' server_name' url' description' = Inr b"
    and "myhostname @ host = myhostname' @ host'"
  shows "SSDP__uuid a = SSDP__uuid b
         \<and> uuid3 NAMESPACE_DNS (myhostname @ host) = Inr (SSDP__uuid a)"
proof -
  from assms(1) have a: "uuid3 NAMESPACE_DNS (myhostname @ host) = Inr (SSDP__uuid a)"
    by (auto simp: SSDP_init_def split: sum.splits)
  from assms(2) have "uuid3 NAMESPACE_DNS (myhostname' @ host') = Inr (SSDP__uuid b)"
    by (auto simp: SSDP_init_def split: sum.splits)
  with a assms(3) show ?thesis by simp
qed

theorem uuid_of_concatenation_witness:
  "\<exists>a b. SSDP_init (Inr (lit ''nas'')) (lit ''192.168.1.50'') (lit ''TestServer'')
            (lit ''http://192.168.1.50:8080'') (lit ''x'') = Inr a
        \<and> SSDP_init (Inr (lit ''nas'')) (lit ''192.168.1.50'') (lit ''Other'')
            (lit ''http://192.168.1.50:9090'') (lit ''y'') = Inr b
        \<and> lit ''nas'' @ lit ''192.168.1.50'' = lit ''nas'' @ lit ''192.168.1.50''
        \<and> SSDP__uuid a = SSDP__uuid b"
proof -
  from SSDP_init_lit obtain a where
    a: "SSDP_init (Inr (lit ''nas'')) (lit ''192.168.1.50'') (lit ''TestServer'')
          (lit ''http://192.168.1.50:8080'') (lit ''x'') = Inr a"
    by blast
  from SSDP_init_lit obtain b where
    b: "SSDP_init (Inr (lit ''nas'')) (lit ''192.168.1.50'') (lit ''Other'')
          (lit ''http://192.168.1.50:9090'') (lit ''y'') = Inr b"
    by blast
  from uuid_of_concatenation [OF a b refl] show ?thesis using a b by blast
qed

text \<open>
  C1 as stated fails: a change of both inputs that keeps their concatenation keeps the
  identifier. Hostname \<open>server\<close> with host \<open>192.168.1.5\<close> and hostname \<open>server1\<close> with
  host \<open>92.168.1.5\<close> both give 74bf85f8-7889-39ac-9093-2d08b10e2e4c.
\<close>

theorem uuid_change_counterexample:
  "\<exists>a b. SSDP_init (Inr (lit ''server'')) (lit ''192.168.1.5'') (lit ''TestServer'')
            (lit ''http://192.168.1.5:8080'') (lit ''x'') = Inr a
        \<and> SSDP_init (Inr (lit ''server1'')) (lit ''92.168.1.5'') (lit ''TestServer'')
            (lit ''http://192.168.1.5:8080'') (lit ''x'') = Inr b
        \<and> lit ''server'' \<noteq> lit ''server1'' \<and> lit ''192.168.1.5'' \<noteq> lit ''92.168.1.5''
        \<and> SSDP__uuid a = SSDP__uuid b
        \<and> UUID_str (SSDP__uuid a) = lit ''74bf85f8-7889-39ac-9093-2d08b10e2e4c''"
proof -
  from SSDP_init_lit obtain a where
    a: "SSDP_init (Inr (lit ''server'')) (lit ''192.168.1.5'') (lit ''TestServer'')
          (lit ''http://192.168.1.5:8080'') (lit ''x'') = Inr a"
    by blast
  from SSDP_init_lit obtain b where
    b: "SSDP_init (Inr (lit ''server1'')) (lit ''92.168.1.5'') (lit ''TestServer'')
          (lit ''http://192.168.1.5:8080'') (lit ''x'') = Inr b"
    by blast
  have cat: "lit ''server'' @ lit ''192.168.1.5'' = lit ''server192.168.1.5''"
    "lit ''server1'' @ lit ''92.168.1.5'' = lit ''server192.168.1.5''"
    by (simp_all add: lit_def)
  from a have "uuid3 NAMESPACE_DNS (lit ''server'' @ lit ''192.168.1.5'') = Inr (SSDP__uuid a)"
    by (auto simp: SSDP_init_def split: sum.splits)
  then have ua: "SSDP__uuid a = 0x74bf85f8788939ac90932d08b10e2e4c"
    unfolding cat uuid3_example by simp
  from b have "uuid3 NAMESPACE_DNS (lit ''server1'' @ lit ''92.168.1.5'') = Inr (SSDP__uuid b)"
    by (auto simp: SSDP_init_def split: sum.splits)
  then have ub: "SSDP__uuid b = 0x74bf85f8788939ac90932d08b10e2e4c"
    unfolding cat uuid3_example by simp
  have ne: "lit ''server'' \<noteq> lit ''server1''" "lit ''192.168.1.5'' \<noteq> lit ''92.168.1.5''"
    by (simp_all add: lit_def)
  from a b ua ub ne UUID_str_example show ?thesis by auto
qed

section \<open>Properties of the run state and of the wrappers\<close>

text \<open>
  C6. The flag \<open>__stop\<close> is clear in every object the constructor returns. Along every
  sequence of steps from a well-formed state, every object of the store keeps all its
  fields but the thread state and the flag (the announcement octets and the descriptor
  document among them); a flag that is set stays set; and a flag that became set,
  in an old object or in one constructed on the way, did so by a \<open>stop\<close> call on that
  object or by \<open>stop_ssdp\<close>.
\<close>

theorem run_state_one_way:
  assumes "wf_world w" and "execs es w = Some w'"
  shows "(\<forall>g host server_name url description self.
            SSDP_init g host server_name url description = Inr self \<longrightarrow> \<not> SSDP__stop self)
       \<and> (\<forall>r < length (heap w).
             r < length (heap w') \<and> changed_only_state (heap w ! r) (heap w' ! r)
             \<and> SSDP__mySSDPbroadcast (heap w' ! r) = SSDP__mySSDPbroadcast (heap w ! r)
             \<and> SSDP__myxml (heap w' ! r) = SSDP__myxml (heap w ! r)
             \<and> (SSDP__stop (heap w ! r) \<longrightarrow> SSDP__stop (heap w' ! r))
             \<and> (SSDP__stop (heap w' ! r) \<and> \<not> SSDP__stop (heap w ! r)
                  \<longrightarrow> Call_stop r \<in> set es \<or> Stop_ssdp \<in> set es))
       \<and> (\<forall>r. length (heap w) \<le> r \<and> r < length (heap w') \<and> SSDP__stop (heap w' ! r)
             \<longrightarrow> Call_stop r \<in> set es \<or> Stop_ssdp \<in> set es)"
proof -
  note inv = execs_invariant [OF assms]
  have "SSDP__mySSDPbroadcast (heap w' ! r) = SSDP__mySSDPbroadcast (heap w ! r)
        \<and> SSDP__myxml (heap w' ! r) = SSDP__myxml (heap w ! r)"
    if "r < length (heap w)" for r
    using inv that by (simp add: changed_only_state_fields)
  with inv show ?thesis by (auto dest: SSDP_init_fresh)
qed

theorem run_state_one_way_witness:
  "\<exists>obj w'. SSDP_init (Inr (lit ''nas'')) (lit ''192.168.1.50'') (lit ''TestServer'')
               (lit ''http://192.168.1.50:8080'') (lit ''x'') = Inr obj
     \<and> wf_world (init_world\<lparr>heap := [obj]\<rparr>)
     \<and> execs [Call_start 0, Thread_step 0 True, Call_stop 0, Thread_step 0 True]
          (init_world\<lparr>heap := [obj]\<rparr>) = Some w'
     \<and> \<not> SSDP__stop obj \<and> SSDP__stop (heap w' ! 0)
     \<and> SSDP__mySSDPbroadcast (heap w' ! 0) = SSDP__mySSDPbroadcast obj
     \<and> SSDP__myxml (heap w' ! 0) = SSDP__myxml obj
     \<and> network w' = [(SSDP__mySSDPbroadcast obj, MCAST_GRP, MCAST_PORT, MULTICAST_TTL)]"
proof -
  from SSDP_init_lit obtain obj where
    obj: "SSDP_init (Inr (lit ''nas'')) (lit ''192.168.1.50'') (lit ''TestServer'')
            (lit ''http://192.168.1.50:8080'') (lit ''x'') = Inr obj"
    by blast
  let ?w = "(init_world\<lparr>heap := [obj]\<rparr>)"
  have wf: "wf_world ?w" by (simp add: wf_world_def init_world_def)
  from SSDP_init_fresh [OF obj] obtain w' where
    ex: "execs [Call_start 0, Thread_step 0 True, Call_stop 0, Thread_step 0 True] ?w = Some w'"
      and net: "network w' = [(SSDP__mySSDPbroadcast obj, MCAST_GRP, MCAST_PORT, MULTICAST_TTL)]"
      and st: "SSDP__stop (heap w' ! 0)"
    by (simp add: start_def stop_def is_alive_def run_step_def init_world_def)
  from run_state_one_way [OF wf ex] obj wf ex net st show ?thesis by auto
qed

text \<open>
  C7. In every state reached from the initial one by steps among which there is no
  \<open>start_ssdp\<close> call, \<open>server_ssdp_xml\<close> returns the empty string and \<open>stop_ssdp\<close> returns
  without raising and leaves the state as it is.
\<close>

theorem wrappers_before_start:
  assumes "execs es init_world = Some w" and "\<forall>e \<in> set es. \<not> is_Start_ssdp e"
  shows "server_ssdp_xml w = PyStr [] \<and> stop_ssdp w = Some (Return (), w)"
proof -
  have "module__SSDP init_world = None" by (simp add: init_world_def)
  with assms(1) have "module__SSDP w = None" using assms(2) by (rule execs_module_None)
  then show ?thesis by (simp add: server_ssdp_xml_def stop_ssdp_None)
qed

theorem wrappers_before_start_witness:
  "execs [Server_ssdp_xml, Stop_ssdp, Server_ssdp_xml] init_world = Some init_world
   \<and> \<not> is_Start_ssdp Server_ssdp_xml \<and> \<not> is_Start_ssdp Stop_ssdp
   \<and> server_ssdp_xml init_world = PyStr []
   \<and> stop_ssdp init_world = Some (Return (), init_world)"
proof -
  have ex: "execs [Server_ssdp_xml, Stop_ssdp, Server_ssdp_xml] init_world = Some init_world"
    by (simp add: stop_ssdp_def init_world_def)
  have no: "\<forall>e \<in> set [Server_ssdp_xml, Stop_ssdp, Server_ssdp_xml]. \<not> is_Start_ssdp e"
    by simp
  from wrappers_before_start [OF ex no] ex no show ?thesis by simp
qed

text \<open>
  C8. A \<open>start_ssdp\<close> call that returns while an instance is tracked makes the module
  variable refer to the new, started object; the object tracked before stays in the
  store as it was, flag and thread state included, and nothing is sent.
\<close>

theorem second_start_keeps_first:
  assumes "wf_world w" and "module__SSDP w = Some r1"
    and "start_ssdp g host server_name url description w = (Return (), w')"
  shows "module__SSDP w' = Some (length (heap w)) \<and> r1 \<noteq> length (heap w)
       \<and> r1 < length (heap w') \<and> heap w' ! r1 = heap w ! r1
       \<and> SSDP__stop (heap w' ! r1) = SSDP__stop (heap w ! r1)
       \<and> is_alive (heap w' ! r1) = is_alive (heap w ! r1)
       \<and> is_alive (heap w' ! length (heap w))
       \<and> network w' = network w"
proof -
  from assms(1,2) have r1: "r1 < length (heap w)" by (simp add: wf_world_def)
  from assms(3) obtain obj where
    obj: "SSDP_init g host server_name url description = Inr obj"
    and w': "w' = w\<lparr>heap := heap w @ [obj\<lparr>Thread_started := True\<rparr>],
                    module__SSDP := Some (length (heap w)),
                    run_at := (run_at w)(length (heap w) := At_test)\<rparr>"
    by (rule start_ssdp_ReturnD)
  from SSDP_init_fresh [OF obj] r1 show ?thesis
    by (simp add: w' nth_append is_alive_def)
qed

theorem second_start_keeps_first_witness:
  "\<exists>w1 w2. start_ssdp (Inr (lit ''nas'')) (lit ''192.168.1.50'') (lit ''TestServer'')
              (lit ''http://192.168.1.50:8080'') (lit ''x'') init_world = (Return (), w1)
     \<and> wf_world w1 \<and> module__SSDP w1 = Some 0
     \<and> start_ssdp (Inr (lit ''nas'')) (lit ''192.168.1.50'') (lit ''TestServer'')
              (lit ''http://192.168.1.50:8080'') (lit ''x'') w1 = (Return (), w2)
     \<and> module__SSDP w2 = Some 1 \<and> heap w2 ! 0 = heap w1 ! 0
     \<and> \<not> SSDP__stop (heap w2 ! 0) \<and> is_alive (heap w2 ! 0)"
proof -
  from SSDP_init_lit obtain obj where
    obj: "SSDP_init (Inr (lit ''nas'')) (lit ''192.168.1.50'') (lit ''TestServer'')
            (lit ''http://192.168.1.50:8080'') (lit ''x'') = Inr obj"
    by blast
  define w1 where "w1 = init_world\<lparr>heap := heap init_world @ [obj\<lparr>Thread_started := True\<rparr>],
      module__SSDP := Some (length (heap init_world)),
      run_at := (run_at init_world)(length (heap init_world) := At_test)\<rparr>"
  define w2 where "w2 = w1\<lparr>heap := heap w1 @ [obj\<lparr>Thread_started := True\<rparr>],
      module__SSDP := Some (length (heap w1)),
      run_at := (run_at w1)(length (heap w1) := At_test)\<rparr>"
  have s1: "start_ssdp (Inr (lit ''nas'')) (lit ''192.168.1.50'') (lit ''TestServer'')
              (lit ''http://192.168.1.50:8080'') (lit ''x'') init_world = (Return (), w1)"
    unfolding w1_def by (rule start_ssdp_Return [OF obj])
  have s2: "start_ssdp (Inr (lit ''nas'')) (lit ''192.168.1.50'') (lit ''TestServer'')
              (lit ''http://192.168.1.50:8080'') (lit ''x'') w1 = (Return (), w2)"
    unfolding w2_def by (rule start_ssdp_Return [OF obj])
  have wf: "wf_world w1" and m: "module__SSDP w1 = Some 0"
    and fl: "\<not> SSDP__stop (heap w1 ! 0)" "is_alive (heap w1 ! 0)"
    using SSDP_init_fresh [OF obj]
    by (simp_all add: w1_def init_world_def wf_world_def is_alive_def)
  have len: "length (heap w1) = 1" by (simp add: w1_def init_world_def)
  from second_start_keeps_first [OF wf m s2] s1 s2 wf m fl len show ?thesis by auto
qed

text \<open>
  C10. \<open>serve_xml\<close> on an object whose flag is set returns \<open>None\<close>; \<open>server_ssdp_xml\<close>
  returns the empty string when no object is tracked or the tracked thread is not
  alive; the two values differ. With a tracked, alive thread \<open>server_ssdp_xml\<close> passes
  on what \<open>serve_xml\<close> returns, so it returns \<open>None\<close> when the flag is set already and
  the thread has not yet ended.
\<close>

theorem none_versus_empty_string:
  "(SSDP__stop self \<longrightarrow> serve_xml self = PyNone)
   \<and> (module__SSDP w = None \<longrightarrow> server_ssdp_xml w = PyStr [])
   \<and> (module__SSDP w = Some r \<and> \<not> is_alive (heap w ! r) \<longrightarrow> server_ssdp_xml w = PyStr [])
   \<and> PyNone \<noteq> PyStr []
   \<and> (module__SSDP w = Some r \<and> is_alive (heap w ! r)
        \<longrightarrow> server_ssdp_xml w = serve_xml (heap w ! r))
   \<and> (module__SSDP w = Some r \<and> is_alive (heap w ! r) \<and> SSDP__stop (heap w ! r)
        \<longrightarrow> server_ssdp_xml w = PyNone)"
  by (simp add: serve_xml_def server_ssdp_xml_def)

theorem none_versus_empty_string_witness:
  "\<exists>w. execs [Start_ssdp (Inr (lit ''nas'')) (lit ''192.168.1.50'') (lit ''TestServer'')
                 (lit ''http://192.168.1.50:8080'') (lit ''x''), Call_stop 0] init_world = Some w
     \<and> module__SSDP w = Some 0 \<and> is_alive (heap w ! 0) \<and> SSDP__stop (heap w ! 0)
     \<and> serve_xml (heap w ! 0) = PyNone
     \<and> server_ssdp_xml w = PyNone
     \<and> server_ssdp_xml init_world = PyStr []"
proof -
  from SSDP_init_lit obtain obj where
    obj: "SSDP_init (Inr (lit ''nas'')) (lit ''192.168.1.50'') (lit ''TestServer'')
            (lit ''http://192.168.1.50:8080'') (lit ''x'') = Inr obj"
    by blast
  from SSDP_init_fresh [OF obj] obtain w where
    ex: "execs [Start_ssdp (Inr (lit ''nas'')) (lit ''192.168.1.50'') (lit ''TestServer'')
                 (lit ''http://192.168.1.50:8080'') (lit ''x''), Call_stop 0] init_world = Some w"
    and m: "module__SSDP w = Some 0" and al: "is_alive (heap w ! 0)"
    and fl: "SSDP__stop (heap w ! 0)"
    by (simp add: start_ssdp_Return [OF obj] init_world_def stop_def is_alive_def)
  have i: "module__SSDP init_world = None" by (simp add: init_world_def)
  from none_versus_empty_string [of "heap w ! 0" w 0] ex m al fl
  have "serve_xml (heap w ! 0) = PyNone \<and> server_ssdp_xml w = PyNone" by simp
  moreover from none_versus_empty_string [of obj init_world 0] i
  have "server_ssdp_xml init_world = PyStr []" by simp
  ultimately show ?thesis using ex m al fl by blast
qed

text \<open>
  C2, at the input where the code leaves it. On an object that was constructed and
  never started, \<open>serve_xml\<close> returns the descriptor document, which is not empty:
  it tests the flag only, and the flag is clear from construction. The docstring of
  \<open>serve_xml\<close> says that it returns nothing if not running.
\<close>

theorem serve_xml_never_started:
  "\<exists>self. SSDP_init (Inr (lit ''nas'')) (lit ''192.168.1.50'') (lit ''TestServer'')
             (lit ''http://192.168.1.50:8080'') (lit ''x'') = Inr self
     \<and> \<not> Thread_started self \<and> \<not> is_alive self
     \<and> serve_xml self = PyStr (SSDP__myxml self) \<and> SSDP__myxml self \<noteq> []
     \<and> serve_xml self \<noteq> PyNone \<and> serve_xml self \<noteq> PyStr []"
proof -
  from SSDP_init_lit obtain self where
    self: "SSDP_init (Inr (lit ''nas'')) (lit ''192.168.1.50'') (lit ''TestServer'')
             (lit ''http://192.168.1.50:8080'') (lit ''x'') = Inr self"
    by blast
  from SSDP_init_fresh [OF self] myxml_nonempty [OF self] self show ?thesis
    by (auto simp: serve_xml_def is_alive_def)
qed

text \<open>
  C5, as amended. \<open>SSDP.stop\<close> sets the flag and returns at once: it does not wait, the
  thread is as alive after the call as before; a second call changes nothing. The wait
  is the \<open>join()\<close> of \<open>stop_ssdp\<close>: with a tracked, alive instance \<open>stop_ssdp\<close> returns, and
  when it does the flag is set and the thread has ended; a second \<open>stop_ssdp\<close> leaves
  the state as it is.
\<close>

theorem stop_sets_flag_stop_ssdp_joins:
  assumes "wf_world w" and "module__SSDP w = Some r" and "is_alive (heap w ! r)"
  shows "SSDP__stop (stop self) \<and> is_alive (stop self) = is_alive self
       \<and> stop (stop self) = stop self
       \<and> (\<exists>w'. stop_ssdp w = Some (Return (), w')
              \<and> SSDP__stop (heap w' ! r) \<and> Thread_is_stopped (heap w' ! r)
              \<and> \<not> is_alive (heap w' ! r)
              \<and> stop_ssdp w' = Some (Return (), w'))"
proof -
  from assms(1,2) have r: "r < length (heap w)" by (simp add: wf_world_def)
  from stop_ssdp_alive [OF assms(2) r assms(3)] obtain pc net where
    1: "stop_ssdp w = Some (Return (),
          w\<lparr>heap := (heap w)[r := (heap w ! r)\<lparr>SSDP__stop := True, Thread_is_stopped := True\<rparr>],
            network := net, run_at := (run_at w)(r := pc)\<rparr>)"
    by blast
  let ?w' = "w\<lparr>heap := (heap w)[r := (heap w ! r)\<lparr>SSDP__stop := True, Thread_is_stopped := True\<rparr>],
               network := net, run_at := (run_at w)(r := pc)\<rparr>"
  have m: "module__SSDP ?w' = Some r" using assms(2) by simp
  have na: "\<not> is_alive (heap ?w' ! r)" using r by (simp add: is_alive_def)
  have 2: "stop_ssdp ?w' = Some (Return (), ?w')"
    using m na by (rule stop_ssdp_not_alive)
  have 3: "SSDP__stop (heap ?w' ! r) \<and> Thread_is_stopped (heap ?w' ! r)"
    using r by simp
  have 4: "SSDP__stop (stop self) \<and> is_alive (stop self) = is_alive self
           \<and> stop (stop self) = stop self"
    by (simp add: stop_def is_alive_def)
  from 1 2 3 4 na show ?thesis by blast
qed

theorem stop_sets_flag_stop_ssdp_joins_witness:
  "\<exists>w w'. execs [Start_ssdp (Inr (lit ''nas'')) (lit ''192.168.1.50'') (lit ''TestServer'')
                    (lit ''http://192.168.1.50:8080'') (lit ''x''), Thread_step 0 True]
             init_world = Some w
     \<and> wf_world w \<and> module__SSDP w = Some 0 \<and> is_alive (heap w ! 0)
     \<and> run_at w 0 = In_body
     \<and> stop_ssdp w = Some (Return (), w')
     \<and> SSDP__stop (heap w' ! 0) \<and> \<not> is_alive (heap w' ! 0)
     \<and> stop_ssdp w' = Some (Return (), w')"
proof -
  from SSDP_init_lit obtain obj where
    obj: "SSDP_init (Inr (lit ''nas'')) (lit ''192.168.1.50'') (lit ''TestServer'')
            (lit ''http://192.168.1.50:8080'') (lit ''x'') = Inr obj"
    by blast
  from SSDP_init_fresh [OF obj] obtain w where
    ex: "execs [Start_ssdp (Inr (lit ''nas'')) (lit ''192.168.1.50'') (lit ''TestServer'')
                  (lit ''http://192.168.1.50:8080'') (lit ''x''), Thread_step 0 True]
           init_world = Some w"
    and wf: "wf_world w" and m: "module__SSDP w = Some 0" and al: "is_alive (heap w ! 0)"
    and pc: "run_at w 0 = In_body"
    by (simp add: start_ssdp_Return [OF obj] init_world_def is_alive_def run_step_def
          wf_world_def)
  from stop_sets_flag_stop_ssdp_joins [OF wf m al, of obj] ex wf m al pc show ?thesis by blast
qed

text \<open>
  C5 as stated fails for \<open>SSDP.stop\<close>: when it returns on a started object the flag is
  set and the thread is still alive.
\<close>

theorem stop_does_not_wait_counterexample:
  "\<exists>self started. SSDP_init (Inr (lit ''nas'')) (lit ''192.168.1.50'') (lit ''TestServer'')
             (lit ''http://192.168.1.50:8080'') (lit ''x'') = Inr self
     \<and> start self = Inr started
     \<and> SSDP__stop (stop started) \<and> is_alive (stop started)
     \<and> \<not> Thread_is_stopped (stop started)"
proof -
  from SSDP_init_lit obtain self where
    self: "SSDP_init (Inr (lit ''nas'')) (lit ''192.168.1.50'') (lit ''TestServer'')
             (lit ''http://192.168.1.50:8080'') (lit ''x'') = Inr self"
    by blast
  from SSDP_init_fresh [OF self] self show ?thesis
    by (simp add: start_def stop_def is_alive_def)
qed

section \<open>Properties of the payloads\<close>

text \<open>
  C3, as amended. The announcement octets are the UTF-8 encoding of the header block of
  the specification (nine lines ended by CR LF, then an empty line) in which the
  \<open>LOCATION\<close> line carries the url with every line feed replaced by CR LF, hence the url
  itself when it holds no line feed. The descriptor document contains \<open>URLBase\<close> with
  the url, \<open>presentationURL\<close> with \<open>sabnzbd\<close>, a \<open>friendlyName\<close> with the hostname and
  the \<open>UDN\<close> element \<open>uuid:\<close> plus the identifier; when neither the url nor the hostname
  holds the character \<open><\<close>, the document has one \<open><UDN>\<close> tag only. The value of the
  \<open>USN\<close> line holds the identifier at one position only.
\<close>

theorem payload_contents:
  assumes "SSDP_init (Inr myhostname) host server_name url description = Inr self"
  shows "bytes_utf8 (spec_announcement (replace [0x0A] [0x0D, 0x0A] url)
           (UUID_str (SSDP__uuid self))) = Inr (SSDP__mySSDPbroadcast self)
       \<and> (0x0A \<notin> set url \<longrightarrow>
            bytes_utf8 (spec_announcement url (UUID_str (SSDP__uuid self)))
              = Inr (SSDP__mySSDPbroadcast self))
       \<and> sublist (lit ''<URLBase>'' @ url @ lit ''</URLBase>'') (SSDP__myxml self)
       \<and> sublist (lit ''<presentationURL>sabnzbd</presentationURL>'') (SSDP__myxml self)
       \<and> sublist (lit ''<friendlyName>SABnzbd ('' @ myhostname @ lit '')</friendlyName>'')
             (SSDP__myxml self)
       \<and> sublist (lit ''<UDN>uuid:'' @ UUID_str (SSDP__uuid self) @ lit ''</UDN>'')
             (SSDP__myxml self)
       \<and> (0x3C \<notin> set url \<and> 0x3C \<notin> set myhostname \<longrightarrow>
            count_occ (lit ''<UDN>'') (SSDP__myxml self) = 1)
       \<and> spec_announcement_lines url (UUID_str (SSDP__uuid self)) ! 6
            = lit ''USN: '' @ lit ''uuid:'' @ UUID_str (SSDP__uuid self) @ lit ''::upnp:rootdevice''
       \<and> count_occ (UUID_str (SSDP__uuid self))
             (lit ''uuid:'' @ UUID_str (SSDP__uuid self) @ lit ''::upnp:rootdevice'') = 1"
proof -
  note b = SSDP_init_broadcast [OF assms]
  have b': "bytes_utf8 (spec_announcement url (UUID_str (SSDP__uuid self)))
              = Inr (SSDP__mySSDPbroadcast self)" if "0x0A \<notin> set url"
    using b replace_lf_id [OF that, of "[0x0D, 0x0A]"] by simp
  have usn: "spec_announcement_lines url (UUID_str (SSDP__uuid self)) ! 6
       = lit ''USN: '' @ lit ''uuid:'' @ UUID_str (SSDP__uuid self) @ lit ''::upnp:rootdevice''"
    by (simp add: spec_announcement_lines_def lit_def)
  from b b' usn show ?thesis
    unfolding SSDP_init_myxml [OF assms]
    by (simp add: myxml_parts myxml_one_UDN UUID_str_once)
qed

theorem payload_contents_witness:
  "\<exists>self. SSDP_init (Inr (lit ''nas'')) (lit ''192.168.1.50'') (lit ''TestServer'')
             (lit ''http://192.168.1.50:8080'') (lit ''x'') = Inr self
     \<and> 0x0A \<notin> set (lit ''http://192.168.1.50:8080'')
     \<and> 0x3C \<notin> set (lit ''http://192.168.1.50:8080'') \<and> 0x3C \<notin> set (lit ''nas'')
     \<and> bytes_utf8 (spec_announcement (lit ''http://192.168.1.50:8080'')
           (UUID_str (SSDP__uuid self))) = Inr (SSDP__mySSDPbroadcast self)
     \<and> sublist (lit ''<URLBase>http://192.168.1.50:8080</URLBase>'') (SSDP__myxml self)
     \<and> sublist (lit ''<presentationURL>sabnzbd</presentationURL>'') (SSDP__myxml self)
     \<and> sublist (lit ''<friendlyName>SABnzbd (nas)</friendlyName>'') (SSDP__myxml self)
     \<and> count_occ (lit ''<UDN>'') (SSDP__myxml self) = 1"
proof -
  from SSDP_init_lit obtain self where
    self: "SSDP_init (Inr (lit ''nas'')) (lit ''192.168.1.50'') (lit ''TestServer'')
             (lit ''http://192.168.1.50:8080'') (lit ''x'') = Inr self"
    by blast
  have h: "0x0A \<notin> set (lit ''http://192.168.1.50:8080'')"
    "0x3C \<notin> set (lit ''http://192.168.1.50:8080'')" "0x3C \<notin> set (lit ''nas'')"
    by (simp_all add: lit_def)
  have l: "lit ''<URLBase>'' @ lit ''http://192.168.1.50:8080'' @ lit ''</URLBase>''
             = lit ''<URLBase>http://192.168.1.50:8080</URLBase>''"
    "lit ''<friendlyName>SABnzbd ('' @ lit ''nas'' @ lit '')</friendlyName>''
             = lit ''<friendlyName>SABnzbd (nas)</friendlyName>''"
    by (simp_all add: lit_def)
  from payload_contents [OF self] h self show ?thesis
    unfolding l by blast
qed

text \<open>
  C3 as stated fails for a url with a line feed and the text \<open><UDN>\<close>: the announcement
  is not the encoding of the header block with that url, and the document has two
  \<open><UDN>\<close> tags.
\<close>

theorem payload_contents_counterexample:
  "\<exists>self. SSDP_init (Inr (lit ''nas'')) (lit ''192.168.1.50'') (lit ''TestServer'')
             (lit ''http://nas/<UDN>\<newline>'') (lit ''x'') = Inr self
     \<and> bytes_utf8 (spec_announcement (lit ''http://nas/<UDN>\<newline>'')
           (UUID_str (SSDP__uuid self))) \<noteq> Inr (SSDP__mySSDPbroadcast self)
     \<and> count_occ (lit ''<UDN>'') (SSDP__myxml self) = 2"
proof -
  from SSDP_init_lit obtain self where
    self: "SSDP_init (Inr (lit ''nas'')) (lit ''192.168.1.50'') (lit ''TestServer'')
             (lit ''http://nas/<UDN>\<newline>'') (lit ''x'') = Inr self"
    by blast
  let ?u = "UUID_str (SSDP__uuid self)"
  let ?url = "lit ''http://nas/<UDN>\<newline>''"
  have r: "replace [0x0A] [0x0D, 0x0A] ?url = lit ''http://nas/<UDN>'' @ [0x0D, 0x0A]"
    by (simp add: replace_single lit_def)
  have a1: "\<forall>c \<in> set ?url. c < 0x80" by (simp add: lit_def)
  have a2: "\<forall>c \<in> set (lit ''http://nas/<UDN>'' @ [0x0D, 0x0A]). c < 0x80"
    by (simp add: lit_def)
  have e1: "bytes_utf8 (spec_announcement ?url ?u) = Inr (map of_nat (spec_announcement ?url ?u))"
    by (rule bytes_utf8_ascii [OF spec_announcement_ascii [OF a1]])
  have e2: "Inr (SSDP__mySSDPbroadcast self)
      = (Inr (map of_nat (spec_announcement (lit ''http://nas/<UDN>'' @ [0x0D, 0x0A]) ?u))
          :: error + byte list)"
    using SSDP_init_broadcast [OF self]
    unfolding r bytes_utf8_ascii [OF spec_announcement_ascii [OF a2]] by simp
  have len: "length (spec_announcement ?url ?u)
      \<noteq> length (spec_announcement (lit ''http://nas/<UDN>'' @ [0x0D, 0x0A]) ?u)"
    by (simp add: length_spec_announcement lit_def)
  have ne: "bytes_utf8 (spec_announcement ?url ?u) \<noteq> Inr (SSDP__mySSDPbroadcast self)"
    unfolding e1 e2 using len by (auto dest: map_eq_imp_length_eq)
  have "0x3C \<notin> set ?u" using UUID_str_chars by blast
  then have "count_occ (lit ''<UDN>'') (myxml_fstring ?url (lit ''nas'') (SSDP__uuid self)) = 2"
    unfolding myxml_fstring_def by (simp add: lit_def count_occ_skip)
  then have two: "count_occ (lit ''<UDN>'') (SSDP__myxml self) = 2"
    unfolding SSDP_init_myxml [OF self] .
  from self ne two show ?thesis by blast
qed

end
